theory Spec2Isabelle
  imports Complex_Main "HOL-Library.Multiset"
begin

section \<open>Numbers\<close>

text \<open>
  Every \<^verbatim>\<open>number\<close> of the source is a binary64 value: a finite real (\<open>Fin 0\<close> is the
  positive zero), the negative zero, one of the two infinities or \<^verbatim>\<open>NaN\<close>. The
  arithmetic operators compute the exact real result and round it to the nearest
  binary64 value, ties to the even significand, so every finite value an operator
  returns is a binary64 value. A real \<open>x\<close> is one exactly when \<open>round64 x = Fin x\<close>; a
  property that needs this of an input states it.
\<close>

datatype number = Fin real | NegZero | PosInf | NegInf | NaN

fun isZero :: "number \<Rightarrow> bool" where
  "isZero (Fin r) = (r = 0)"
| "isZero NegZero = True"
| "isZero _ = False"

fun isInf :: "number \<Rightarrow> bool" where
  "isInf PosInf = True"
| "isInf NegInf = True"
| "isInf _ = False"

fun signBit :: "number \<Rightarrow> bool" where
  "signBit (Fin r) = (r < 0)"
| "signBit NegZero = True"
| "signBit NegInf = True"
| "signBit _ = False"

fun magnitude :: "number \<Rightarrow> real" where
  "magnitude (Fin r) = r"
| "magnitude _ = 0"

definition signedZero :: "bool \<Rightarrow> number" where
  "signedZero s = (if s then NegZero else Fin 0)"

definition signedInf :: "bool \<Rightarrow> number" where
  "signedInf s = (if s then NegInf else PosInf)"

subsection \<open>Rounding to binary64\<close>

text \<open>
  The nearest integer, the even one of the two when \<open>q\<close> lies half way.
\<close>

definition roundHalfEven :: "real \<Rightarrow> int" where
  "roundHalfEven q =
     (let f = \<lfloor>q\<rfloor>; d = q - of_int f
      in if d < 1 / 2 then f else if 1 / 2 < d then f + 1 else if even f then f else f + 1)"

text \<open>
  The smallest exponent of a normal value, and the magnitude from which a rounded result
  is an infinity.
\<close>

definition eMin :: int where
  "eMin = - 1022"

definition overflowThreshold :: real where
  "overflowThreshold = 2 ^ 1024"

text \<open>
  The exponent \<open>e\<close> with \<open>2^e \<le> |x| < 2^(e+1)\<close>, held at \<open>eMin\<close> for the subnormal values.
  On a concrete value the exponent is supplied and checked (\<open>round64_normal\<close>).
\<close>

definition binade :: "real \<Rightarrow> int" where
  "binade x = max \<lfloor>log 2 \<bar>x\<bar>\<rfloor> eMin"

text \<open>
  A binary64 value has 53 significant bits, so within the binade \<open>e\<close> the values are the
  multiples of \<open>2^(e - 52)\<close>. A nonzero real is rounded to the nearest multiple; a
  result below the smallest subnormal is a zero of the same sign, a result of \<open>2^1024\<close> is
  an infinity of the same sign.
\<close>

definition round64 :: "real \<Rightarrow> number" where
  "round64 x =
     (if x = 0 then Fin 0
      else
        let u = 2 powi (binade x - 52);
            n = roundHalfEven (\<bar>x\<bar> / u);
            y = of_int n * u
        in if n = 0 then signedZero (x < 0)
           else if overflowThreshold \<le> y then signedInf (x < 0)
           else Fin (if x < 0 then - y else y))"

subsection \<open>Operators\<close>

text \<open>Unary minus flips the sign and nothing else.\<close>

fun numNeg :: "number \<Rightarrow> number" where
  "numNeg (Fin r) = (if r = 0 then NegZero else Fin (- r))"
| "numNeg NegZero = Fin 0"
| "numNeg PosInf = NegInf"
| "numNeg NegInf = PosInf"
| "numNeg NaN = NaN"

text \<open>
  The operator \<^verbatim>\<open>+\<close>: opposite infinities give \<^verbatim>\<open>NaN\<close>; two zeros give the negative zero
  only when both are negative; an exact sum of zero is the positive zero.
\<close>

definition numAdd :: "number \<Rightarrow> number \<Rightarrow> number" where
  "numAdd x y =
     (if x = NaN \<or> y = NaN then NaN
      else if isInf x \<and> isInf y then (if x = y then x else NaN)
      else if isInf x then x
      else if isInf y then y
      else if isZero x \<and> isZero y then signedZero (signBit x \<and> signBit y)
      else round64 (magnitude x + magnitude y))"

text \<open>The operator \<^verbatim>\<open>-\<close> adds the negated right operand.\<close>

definition numSub :: "number \<Rightarrow> number \<Rightarrow> number" where
  "numSub x y = numAdd x (numNeg y)"

text \<open>The operator \<^verbatim>\<open>*\<close>: the sign of the result is the exclusive or of the signs.\<close>

definition numMul :: "number \<Rightarrow> number \<Rightarrow> number" where
  "numMul x y =
     (if x = NaN \<or> y = NaN then NaN
      else if (isInf x \<and> isZero y) \<or> (isZero x \<and> isInf y) then NaN
      else if isInf x \<or> isInf y then signedInf (signBit x \<noteq> signBit y)
      else if isZero x \<or> isZero y then signedZero (signBit x \<noteq> signBit y)
      else round64 (magnitude x * magnitude y))"

text \<open>
  The operator \<^verbatim>\<open>/\<close>: no division raises; zero by zero and infinity by infinity are
  \<^verbatim>\<open>NaN\<close>, any other division by a zero is an infinity.
\<close>

definition numDiv :: "number \<Rightarrow> number \<Rightarrow> number" where
  "numDiv x y =
     (if x = NaN \<or> y = NaN then NaN
      else if (isInf x \<and> isInf y) \<or> (isZero x \<and> isZero y) then NaN
      else if isInf x \<or> isZero y then signedInf (signBit x \<noteq> signBit y)
      else if isInf y \<or> isZero x then signedZero (signBit x \<noteq> signBit y)
      else round64 (magnitude x / magnitude y))"

text \<open>The operator \<^verbatim>\<open>>=\<close>: false whenever an operand is \<^verbatim>\<open>NaN\<close>; both zeros are equal.\<close>

fun numGe :: "number \<Rightarrow> number \<Rightarrow> bool" where
  "numGe NaN _ = False"
| "numGe _ NaN = False"
| "numGe PosInf _ = True"
| "numGe _ NegInf = True"
| "numGe NegInf _ = False"
| "numGe _ PosInf = False"
| "numGe x y = (magnitude y \<le> magnitude x)"

text \<open>The operator \<^verbatim>\<open><\<close>, with the same treatment of \<^verbatim>\<open>NaN\<close> and the zeros.\<close>

fun numLt :: "number \<Rightarrow> number \<Rightarrow> bool" where
  "numLt NaN _ = False"
| "numLt _ NaN = False"
| "numLt PosInf _ = False"
| "numLt _ NegInf = False"
| "numLt NegInf _ = True"
| "numLt _ PosInf = True"
| "numLt x y = (magnitude x < magnitude y)"

text \<open>
  The operator \<^verbatim>\<open>!==\<close> on numbers: \<^verbatim>\<open>NaN\<close> differs from everything, itself included, and
  the two zeros do not differ.
\<close>

fun numNe :: "number \<Rightarrow> number \<Rightarrow> bool" where
  "numNe NaN _ = True"
| "numNe _ NaN = True"
| "numNe x y = (if isZero x \<and> isZero y then False else x \<noteq> y)"

section \<open>Matrix shapes and the FLOPs count\<close>

text \<open>
  The calculator component declares
  \<^verbatim>\<open>interface MatrixDimensions { rows: number; cols: number }\<close> and
  \<^verbatim>\<open>interface FlopsResult { totalFlops; multiplications; additions; outputDimensions }\<close>,
  all of whose fields are numbers. An integer \<open>m\<close> held in a field is \<open>Fin (of_int m)\<close>.
\<close>

record MatrixDimensions =
  rows :: number
  cols :: number

record FlopsResult =
  totalFlops :: number
  multiplications :: number
  additions :: number
  outputDimensions :: MatrixDimensions

text \<open>
  \<^verbatim>\<open>calculateFlops(matrixA, matrixB): FlopsResult | null\<close>. The only early return is
  \<^verbatim>\<open>if (matrixA.cols !== matrixB.rows) return null\<close>; \<open>None\<close> is that \<^verbatim>\<open>null\<close>. The
  products associate to the left, as \<^verbatim>\<open>m * p * n\<close> and \<^verbatim>\<open>m * p * (n - 1)\<close> do.
\<close>

definition calculateFlops :: "MatrixDimensions \<Rightarrow> MatrixDimensions \<Rightarrow> FlopsResult option" where
  "calculateFlops matrixA matrixB =
     (if numNe (cols matrixA) (rows matrixB) then None
      else
        let m = rows matrixA;
            n = cols matrixA;
            p = cols matrixB;
            outputDimensions = \<lparr>rows = m, cols = p\<rparr>;
            multiplications = numMul (numMul m p) n;
            additions = numMul (numMul m p) (numSub n (Fin 1));
            totalFlops = numAdd multiplications additions
        in Some \<lparr>totalFlops = totalFlops,
                 multiplications = multiplications,
                 additions = additions,
                 outputDimensions = outputDimensions\<rparr>)"

section \<open>Printing and the time estimate\<close>

subsection \<open>Number.prototype.toFixed\<close>

definition digitChar :: "nat \<Rightarrow> char" where
  "digitChar d = ''0123456789'' ! d"

fun decimal :: "nat \<Rightarrow> string" where
  "decimal n = (if n < 10 then [digitChar n] else decimal (n div 10) @ [digitChar (n mod 10)])"

declare decimal.simps [simp del]

text \<open>
  For a magnitude of \<open>10^21\<close> or more \<^verbatim>\<open>toFixed\<close> hands over to the general number
  printing, which writes the shortest digits that read back as the same binary64 value,
  in exponent notation. That string depends on the binary representation and is left
  unspecified.
\<close>

definition exponentNotation :: "real \<Rightarrow> string" where
  "exponentNotation = undefined"

text \<open>
  \<^verbatim>\<open>toFixed(f)\<close> on a finite value, after the language definition: take the sign off,
  let \<open>n\<close> be the integer for which \<open>n / 10^f\<close> is closest to \<open>x\<close> (the larger one on a
  tie), write \<open>n\<close> in decimal, pad with zeros on the left to \<open>f + 1\<close> digits and put the
  point before the last \<open>f\<close> digits.
\<close>

definition toFixedFinite :: "nat \<Rightarrow> real \<Rightarrow> string" where
  "toFixedFinite f x0 =
     (let s = (if x0 < 0 then ''-'' else '''');
          x = (if x0 < 0 then - x0 else x0)
      in if 10 ^ 21 \<le> x then s @ exponentNotation x
         else
           let n = nat \<lfloor>x * 10 ^ f + 1 / 2\<rfloor>;
               m = decimal n;
               m = (if f \<noteq> 0 \<and> length m \<le> f
                    then replicate (f + 1 - length m) (CHR ''0'') @ m else m);
               k = length m
           in if f \<noteq> 0 then s @ take (k - f) m @ ''.'' @ drop (k - f) m else s @ m)"

fun toFixed :: "nat \<Rightarrow> number \<Rightarrow> string" where
  "toFixed f NaN = ''NaN''"
| "toFixed f PosInf = ''Infinity''"
| "toFixed f NegInf = ''-Infinity''"
| "toFixed f NegZero = toFixedFinite f 0"
| "toFixed f (Fin r) = toFixedFinite f r"

section \<open>Precision table and execution time\<close>

text \<open>
  \<^verbatim>\<open>interface PrecisionType { value; label; multiplier; description }\<close>; the field
  \<^verbatim>\<open>value\<close> is written \<open>value'\<close>.
\<close>

record PrecisionType =
  value' :: string
  label :: string
  multiplier :: number
  description :: string

definition precisionTypes :: "PrecisionType list" where
  "precisionTypes = [
    \<lparr>value' = ''fp32'', label = ''FP32 (Single Precision)'', multiplier = Fin 1.0,
      description = ''32-bit floating point (default)''\<rparr>,
    \<lparr>value' = ''fp16'', label = ''FP16 (Half Precision)'', multiplier = Fin 2.0,
      description = ''16-bit floating point (~2x faster)''\<rparr>,
    \<lparr>value' = ''bf16'', label = ''BF16 (BFloat16)'', multiplier = Fin 2.0,
      description = ''Brain Float 16-bit (~2x faster)''\<rparr>,
    \<lparr>value' = ''int8'', label = ''INT8 (8-bit Integer)'', multiplier = Fin 4.0,
      description = ''8-bit integer quantization (~4x faster)''\<rparr>,
    \<lparr>value' = ''int4'', label = ''INT4 (4-bit Integer)'', multiplier = Fin 8.0,
      description = ''4-bit integer quantization (~8x faster)''\<rparr>,
    \<lparr>value' = ''fp64'', label = ''FP64 (Double Precision)'', multiplier = Fin 0.5,
      description = ''64-bit floating point (~2x slower)''\<rparr>]"

definition getAdjustedTflops :: "number \<Rightarrow> PrecisionType \<Rightarrow> number" where
  "getAdjustedTflops baseTflops precision = numMul baseTflops (multiplier precision)"

record ExecutionTime =
  seconds :: number
  milliseconds :: number
  microseconds :: number
  nanoseconds :: number
  formatted :: string

text \<open>
  \<^verbatim>\<open>calculateExecutionTime(totalFlops, gpuTflops, precision)\<close>. The function has no
  \<^verbatim>\<open>throw\<close> and no early return; its first parameter \<^verbatim>\<open>totalFlops\<close> is written
  \<open>totalFlops'\<close>, the plain name being the field of \<open>FlopsResult\<close>. Strings are byte
  lists, so the Greek letter mu of the third unit is its two UTF-8 bytes.
\<close>

definition calculateExecutionTime :: "number \<Rightarrow> number \<Rightarrow> PrecisionType \<Rightarrow> ExecutionTime" where
  "calculateExecutionTime totalFlops' gpuTflops precision =
     (let adjustedTflops = getAdjustedTflops gpuTflops precision;
          seconds = numDiv totalFlops' (numMul adjustedTflops (Fin (10 ^ 12)));
          milliseconds = numMul seconds (Fin 1000);
          microseconds = numMul milliseconds (Fin 1000);
          nanoseconds = numMul microseconds (Fin 1000);
          formatted =
            (if numGe seconds (Fin 1) then toFixed 6 seconds @ '' s''
             else if numGe milliseconds (Fin 1) then toFixed 6 milliseconds @ '' ms''
             else if numGe microseconds (Fin 1)
               then toFixed 6 microseconds @ '' '' @ [CHR 0xCE, CHR 0xBC] @ ''s''
             else toFixed 3 nanoseconds @ '' ns'')
      in \<lparr>seconds = seconds,
          milliseconds = milliseconds,
          microseconds = microseconds,
          nanoseconds = nanoseconds,
          formatted = formatted\<rparr>)"

text \<open>The third parameter defaults to the first row of the precision table.\<close>

definition calculateExecutionTimeDefault :: "number \<Rightarrow> number \<Rightarrow> ExecutionTime" where
  "calculateExecutionTimeDefault totalFlops' gpuTflops =
     calculateExecutionTime totalFlops' gpuTflops (precisionTypes ! 0)"

section \<open>Device catalog\<close>

text \<open>
  \<^verbatim>\<open>interface NvidiaGpu { name; series; architecture; tflops; memory?; releaseYear? }\<close>.
  The catalog is a constant array of literals, so \<open>tflops\<close> is a real number.
\<close>

record NvidiaGpu =
  name :: string
  series :: string
  architecture :: string
  tflops :: real
  memory :: "string option"
  releaseYear :: "int option"

definition nvidiaGpus :: "NvidiaGpu list" where
  "nvidiaGpus = [
    \<lparr>name = ''H100 PCIe'', series = ''Hopper'', architecture = ''Hopper'', tflops = 67,
      memory = Some ''80GB'', releaseYear = Some 2022\<rparr>,
    \<lparr>name = ''H100 SXM'', series = ''Hopper'', architecture = ''Hopper'', tflops = 67,
      memory = Some ''80GB'', releaseYear = Some 2022\<rparr>,
    \<lparr>name = ''H100 NVL'', series = ''Hopper'', architecture = ''Hopper'', tflops = 1000,
      memory = Some ''188GB'', releaseYear = Some 2023\<rparr>,
    \<lparr>name = ''A100 PCIe 40GB'', series = ''Ampere'', architecture = ''Ampere'', tflops = 19.5,
      memory = Some ''40GB'', releaseYear = Some 2020\<rparr>,
    \<lparr>name = ''A100 PCIe 80GB'', series = ''Ampere'', architecture = ''Ampere'', tflops = 19.5,
      memory = Some ''80GB'', releaseYear = Some 2020\<rparr>,
    \<lparr>name = ''A100 SXM 40GB'', series = ''Ampere'', architecture = ''Ampere'', tflops = 19.5,
      memory = Some ''40GB'', releaseYear = Some 2020\<rparr>,
    \<lparr>name = ''A100 SXM 80GB'', series = ''Ampere'', architecture = ''Ampere'', tflops = 19.5,
      memory = Some ''80GB'', releaseYear = Some 2020\<rparr>,
    \<lparr>name = ''L40'', series = ''Ada Lovelace'', architecture = ''Ada Lovelace'', tflops = 48.7,
      memory = Some ''48GB'', releaseYear = Some 2022\<rparr>,
    \<lparr>name = ''L40S'', series = ''Ada Lovelace'', architecture = ''Ada Lovelace'', tflops = 91.6,
      memory = Some ''48GB'', releaseYear = Some 2023\<rparr>,
    \<lparr>name = ''L4'', series = ''Ada Lovelace'', architecture = ''Ada Lovelace'', tflops = 30.3,
      memory = Some ''24GB'', releaseYear = Some 2022\<rparr>,
    \<lparr>name = ''V100 PCIe 16GB'', series = ''Volta'', architecture = ''Volta'', tflops = 15.7,
      memory = Some ''16GB'', releaseYear = Some 2017\<rparr>,
    \<lparr>name = ''V100 PCIe 32GB'', series = ''Volta'', architecture = ''Volta'', tflops = 15.7,
      memory = Some ''32GB'', releaseYear = Some 2017\<rparr>,
    \<lparr>name = ''V100 SXM 16GB'', series = ''Volta'', architecture = ''Volta'', tflops = 15.7,
      memory = Some ''16GB'', releaseYear = Some 2017\<rparr>,
    \<lparr>name = ''V100 SXM 32GB'', series = ''Volta'', architecture = ''Volta'', tflops = 15.7,
      memory = Some ''32GB'', releaseYear = Some 2017\<rparr>,
    \<lparr>name = ''P100 PCIe'', series = ''Pascal'', architecture = ''Pascal'', tflops = 9.3,
      memory = Some ''16GB'', releaseYear = Some 2016\<rparr>,
    \<lparr>name = ''P100 SXM'', series = ''Pascal'', architecture = ''Pascal'', tflops = 10.6,
      memory = Some ''16GB'', releaseYear = Some 2016\<rparr>,
    \<lparr>name = ''RTX 4090'', series = ''GeForce RTX 40'', architecture = ''Ada Lovelace'', tflops = 83,
      memory = Some ''24GB'', releaseYear = Some 2022\<rparr>,
    \<lparr>name = ''RTX 4080'', series = ''GeForce RTX 40'', architecture = ''Ada Lovelace'', tflops = 48.7,
      memory = Some ''16GB'', releaseYear = Some 2022\<rparr>,
    \<lparr>name = ''RTX 4070 Ti'', series = ''GeForce RTX 40'', architecture = ''Ada Lovelace'', tflops = 40.1,
      memory = Some ''12GB'', releaseYear = Some 2023\<rparr>,
    \<lparr>name = ''RTX 4070'', series = ''GeForce RTX 40'', architecture = ''Ada Lovelace'', tflops = 29.1,
      memory = Some ''12GB'', releaseYear = Some 2023\<rparr>,
    \<lparr>name = ''RTX 4060 Ti 16GB'', series = ''GeForce RTX 40'', architecture = ''Ada Lovelace'', tflops = 22.1,
      memory = Some ''16GB'', releaseYear = Some 2023\<rparr>,
    \<lparr>name = ''RTX 4060 Ti 8GB'', series = ''GeForce RTX 40'', architecture = ''Ada Lovelace'', tflops = 22.1,
      memory = Some ''8GB'', releaseYear = Some 2023\<rparr>,
    \<lparr>name = ''RTX 4060'', series = ''GeForce RTX 40'', architecture = ''Ada Lovelace'', tflops = 15.1,
      memory = Some ''8GB'', releaseYear = Some 2023\<rparr>,
    \<lparr>name = ''RTX 3090 Ti'', series = ''GeForce RTX 30'', architecture = ''Ampere'', tflops = 40,
      memory = Some ''24GB'', releaseYear = Some 2022\<rparr>,
    \<lparr>name = ''RTX 3090'', series = ''GeForce RTX 30'', architecture = ''Ampere'', tflops = 36,
      memory = Some ''24GB'', releaseYear = Some 2020\<rparr>,
    \<lparr>name = ''RTX 3080 Ti'', series = ''GeForce RTX 30'', architecture = ''Ampere'', tflops = 34.1,
      memory = Some ''12GB'', releaseYear = Some 2021\<rparr>,
    \<lparr>name = ''RTX 3080 12GB'', series = ''GeForce RTX 30'', architecture = ''Ampere'', tflops = 30.6,
      memory = Some ''12GB'', releaseYear = Some 2022\<rparr>,
    \<lparr>name = ''RTX 3080 10GB'', series = ''GeForce RTX 30'', architecture = ''Ampere'', tflops = 29.8,
      memory = Some ''10GB'', releaseYear = Some 2020\<rparr>,
    \<lparr>name = ''RTX 3070 Ti'', series = ''GeForce RTX 30'', architecture = ''Ampere'', tflops = 21.7,
      memory = Some ''8GB'', releaseYear = Some 2021\<rparr>,
    \<lparr>name = ''RTX 3070'', series = ''GeForce RTX 30'', architecture = ''Ampere'', tflops = 20.3,
      memory = Some ''8GB'', releaseYear = Some 2020\<rparr>,
    \<lparr>name = ''RTX 3060 Ti'', series = ''GeForce RTX 30'', architecture = ''Ampere'', tflops = 16.2,
      memory = Some ''8GB'', releaseYear = Some 2020\<rparr>,
    \<lparr>name = ''RTX 3060 12GB'', series = ''GeForce RTX 30'', architecture = ''Ampere'', tflops = 12.7,
      memory = Some ''12GB'', releaseYear = Some 2021\<rparr>,
    \<lparr>name = ''RTX 3060 8GB'', series = ''GeForce RTX 30'', architecture = ''Ampere'', tflops = 12.7,
      memory = Some ''8GB'', releaseYear = Some 2022\<rparr>,
    \<lparr>name = ''RTX 3050'', series = ''GeForce RTX 30'', architecture = ''Ampere'', tflops = 9.1,
      memory = Some ''8GB'', releaseYear = Some 2022\<rparr>,
    \<lparr>name = ''RTX 2080 Ti'', series = ''GeForce RTX 20'', architecture = ''Turing'', tflops = 13.4,
      memory = Some ''11GB'', releaseYear = Some 2018\<rparr>,
    \<lparr>name = ''RTX 2080 Super'', series = ''GeForce RTX 20'', architecture = ''Turing'', tflops = 11.1,
      memory = Some ''8GB'', releaseYear = Some 2019\<rparr>,
    \<lparr>name = ''RTX 2080'', series = ''GeForce RTX 20'', architecture = ''Turing'', tflops = 10.1,
      memory = Some ''8GB'', releaseYear = Some 2018\<rparr>,
    \<lparr>name = ''RTX 2070 Super'', series = ''GeForce RTX 20'', architecture = ''Turing'', tflops = 9.1,
      memory = Some ''8GB'', releaseYear = Some 2019\<rparr>,
    \<lparr>name = ''RTX 2070'', series = ''GeForce RTX 20'', architecture = ''Turing'', tflops = 7.9,
      memory = Some ''8GB'', releaseYear = Some 2018\<rparr>,
    \<lparr>name = ''RTX 2060 Super'', series = ''GeForce RTX 20'', architecture = ''Turing'', tflops = 7.2,
      memory = Some ''8GB'', releaseYear = Some 2019\<rparr>,
    \<lparr>name = ''RTX 2060'', series = ''GeForce RTX 20'', architecture = ''Turing'', tflops = 6.5,
      memory = Some ''6GB'', releaseYear = Some 2019\<rparr>,
    \<lparr>name = ''GTX 1660 Ti'', series = ''GeForce GTX 16'', architecture = ''Turing'', tflops = 5.5,
      memory = Some ''6GB'', releaseYear = Some 2019\<rparr>,
    \<lparr>name = ''GTX 1660 Super'', series = ''GeForce GTX 16'', architecture = ''Turing'', tflops = 5.0,
      memory = Some ''6GB'', releaseYear = Some 2019\<rparr>,
    \<lparr>name = ''GTX 1660'', series = ''GeForce GTX 16'', architecture = ''Turing'', tflops = 4.6,
      memory = Some ''6GB'', releaseYear = Some 2019\<rparr>,
    \<lparr>name = ''GTX 1650 Super'', series = ''GeForce GTX 16'', architecture = ''Turing'', tflops = 4.4,
      memory = Some ''4GB'', releaseYear = Some 2019\<rparr>,
    \<lparr>name = ''GTX 1650'', series = ''GeForce GTX 16'', architecture = ''Turing'', tflops = 3.0,
      memory = Some ''4GB'', releaseYear = Some 2019\<rparr>,
    \<lparr>name = ''GTX 1080 Ti'', series = ''GeForce 10'', architecture = ''Pascal'', tflops = 11.3,
      memory = Some ''11GB'', releaseYear = Some 2017\<rparr>,
    \<lparr>name = ''GTX 1080'', series = ''GeForce 10'', architecture = ''Pascal'', tflops = 8.9,
      memory = Some ''8GB'', releaseYear = Some 2016\<rparr>,
    \<lparr>name = ''GTX 1070 Ti'', series = ''GeForce 10'', architecture = ''Pascal'', tflops = 8.2,
      memory = Some ''8GB'', releaseYear = Some 2017\<rparr>,
    \<lparr>name = ''GTX 1070'', series = ''GeForce 10'', architecture = ''Pascal'', tflops = 6.5,
      memory = Some ''8GB'', releaseYear = Some 2016\<rparr>,
    \<lparr>name = ''GTX 1060 6GB'', series = ''GeForce 10'', architecture = ''Pascal'', tflops = 4.4,
      memory = Some ''6GB'', releaseYear = Some 2016\<rparr>,
    \<lparr>name = ''GTX 1060 3GB'', series = ''GeForce 10'', architecture = ''Pascal'', tflops = 3.9,
      memory = Some ''3GB'', releaseYear = Some 2016\<rparr>,
    \<lparr>name = ''GTX 1050 Ti'', series = ''GeForce 10'', architecture = ''Pascal'', tflops = 2.1,
      memory = Some ''4GB'', releaseYear = Some 2016\<rparr>,
    \<lparr>name = ''GTX 1050'', series = ''GeForce 10'', architecture = ''Pascal'', tflops = 1.8,
      memory = Some ''2GB'', releaseYear = Some 2016\<rparr>,
    \<lparr>name = ''Quadro RTX 8000'', series = ''Quadro RTX'', architecture = ''Turing'', tflops = 16.3,
      memory = Some ''48GB'', releaseYear = Some 2018\<rparr>,
    \<lparr>name = ''Quadro RTX 6000'', series = ''Quadro RTX'', architecture = ''Turing'', tflops = 16.3,
      memory = Some ''24GB'', releaseYear = Some 2018\<rparr>,
    \<lparr>name = ''Quadro RTX 5000'', series = ''Quadro RTX'', architecture = ''Turing'', tflops = 11.2,
      memory = Some ''16GB'', releaseYear = Some 2018\<rparr>,
    \<lparr>name = ''Quadro RTX 4000'', series = ''Quadro RTX'', architecture = ''Turing'', tflops = 7.1,
      memory = Some ''8GB'', releaseYear = Some 2018\<rparr>,
    \<lparr>name = ''RTX A6000'', series = ''Quadro RTX'', architecture = ''Ampere'', tflops = 38.7,
      memory = Some ''48GB'', releaseYear = Some 2020\<rparr>,
    \<lparr>name = ''RTX A5000'', series = ''Quadro RTX'', architecture = ''Ampere'', tflops = 27.8,
      memory = Some ''24GB'', releaseYear = Some 2021\<rparr>,
    \<lparr>name = ''RTX A4000'', series = ''Quadro RTX'', architecture = ''Ampere'', tflops = 19.2,
      memory = Some ''16GB'', releaseYear = Some 2021\<rparr>,
    \<lparr>name = ''RTX A2000'', series = ''Quadro RTX'', architecture = ''Ampere'', tflops = 8.0,
      memory = Some ''6GB'', releaseYear = Some 2021\<rparr>,
    \<lparr>name = ''RTX 6000 Ada'', series = ''Quadro RTX'', architecture = ''Ada Lovelace'', tflops = 91.6,
      memory = Some ''48GB'', releaseYear = Some 2022\<rparr>,
    \<lparr>name = ''RTX 5000 Ada'', series = ''Quadro RTX'', architecture = ''Ada Lovelace'', tflops = 30.3,
      memory = Some ''32GB'', releaseYear = Some 2022\<rparr>,
    \<lparr>name = ''RTX 4000 Ada'', series = ''Quadro RTX'', architecture = ''Ada Lovelace'', tflops = 24.7,
      memory = Some ''20GB'', releaseYear = Some 2023\<rparr>,
    \<lparr>name = ''RTX 4000 SFF Ada'', series = ''Quadro RTX'', architecture = ''Ada Lovelace'', tflops = 19.2,
      memory = Some ''20GB'', releaseYear = Some 2023\<rparr>,
    \<lparr>name = ''Quadro P6000'', series = ''Quadro'', architecture = ''Pascal'', tflops = 12,
      memory = Some ''24GB'', releaseYear = Some 2016\<rparr>,
    \<lparr>name = ''Quadro P5000'', series = ''Quadro'', architecture = ''Pascal'', tflops = 8.9,
      memory = Some ''16GB'', releaseYear = Some 2016\<rparr>,
    \<lparr>name = ''Quadro P4000'', series = ''Quadro'', architecture = ''Pascal'', tflops = 5.3,
      memory = Some ''8GB'', releaseYear = Some 2016\<rparr>,
    \<lparr>name = ''Quadro P2000'', series = ''Quadro'', architecture = ''Pascal'', tflops = 3.0,
      memory = Some ''5GB'', releaseYear = Some 2017\<rparr>,
    \<lparr>name = ''Quadro P1000'', series = ''Quadro'', architecture = ''Pascal'', tflops = 1.9,
      memory = Some ''4GB'', releaseYear = Some 2017\<rparr>,
    \<lparr>name = ''Quadro GV100'', series = ''Quadro'', architecture = ''Volta'', tflops = 14.8,
      memory = Some ''32GB'', releaseYear = Some 2018\<rparr>,
    \<lparr>name = ''Tesla A100 40GB'', series = ''Tesla'', architecture = ''Ampere'', tflops = 19.5,
      memory = Some ''40GB'', releaseYear = Some 2020\<rparr>,
    \<lparr>name = ''Tesla A100 80GB'', series = ''Tesla'', architecture = ''Ampere'', tflops = 19.5,
      memory = Some ''80GB'', releaseYear = Some 2020\<rparr>,
    \<lparr>name = ''Tesla V100 PCIe'', series = ''Tesla'', architecture = ''Volta'', tflops = 15.7,
      memory = Some ''32GB'', releaseYear = Some 2017\<rparr>,
    \<lparr>name = ''Tesla V100 SXM'', series = ''Tesla'', architecture = ''Volta'', tflops = 15.7,
      memory = Some ''32GB'', releaseYear = Some 2017\<rparr>,
    \<lparr>name = ''Tesla P100'', series = ''Tesla'', architecture = ''Pascal'', tflops = 10.6,
      memory = Some ''16GB'', releaseYear = Some 2016\<rparr>,
    \<lparr>name = ''Tesla P40'', series = ''Tesla'', architecture = ''Pascal'', tflops = 12,
      memory = Some ''24GB'', releaseYear = Some 2016\<rparr>,
    \<lparr>name = ''Tesla P4'', series = ''Tesla'', architecture = ''Pascal'', tflops = 5.5,
      memory = Some ''8GB'', releaseYear = Some 2016\<rparr>,
    \<lparr>name = ''TITAN RTX'', series = ''TITAN'', architecture = ''Turing'', tflops = 16.3,
      memory = Some ''24GB'', releaseYear = Some 2018\<rparr>,
    \<lparr>name = ''TITAN V'', series = ''TITAN'', architecture = ''Volta'', tflops = 15,
      memory = Some ''12GB'', releaseYear = Some 2017\<rparr>,
    \<lparr>name = ''TITAN Xp'', series = ''TITAN'', architecture = ''Pascal'', tflops = 12.1,
      memory = Some ''12GB'', releaseYear = Some 2017\<rparr>,
    \<lparr>name = ''TITAN X (Pascal)'', series = ''TITAN'', architecture = ''Pascal'', tflops = 10.97,
      memory = Some ''12GB'', releaseYear = Some 2016\<rparr>,
    \<lparr>name = ''GTX 980 Ti'', series = ''GeForce 9'', architecture = ''Maxwell'', tflops = 5.6,
      memory = Some ''6GB'', releaseYear = Some 2015\<rparr>,
    \<lparr>name = ''GTX 980'', series = ''GeForce 9'', architecture = ''Maxwell'', tflops = 4.6,
      memory = Some ''4GB'', releaseYear = Some 2014\<rparr>,
    \<lparr>name = ''GTX 970'', series = ''GeForce 9'', architecture = ''Maxwell'', tflops = 3.5,
      memory = Some ''4GB'', releaseYear = Some 2014\<rparr>,
    \<lparr>name = ''GTX 960'', series = ''GeForce 9'', architecture = ''Maxwell'', tflops = 2.3,
      memory = Some ''2GB'', releaseYear = Some 2015\<rparr>,
    \<lparr>name = ''GTX 950'', series = ''GeForce 9'', architecture = ''Maxwell'', tflops = 1.8,
      memory = Some ''2GB'', releaseYear = Some 2015\<rparr>,
    \<lparr>name = ''Jetson AGX Orin'', series = ''Jetson'', architecture = ''Ampere'', tflops = 5.3,
      memory = Some ''32GB'', releaseYear = Some 2022\<rparr>,
    \<lparr>name = ''Jetson AGX Xavier'', series = ''Jetson'', architecture = ''Volta'', tflops = 1.4,
      memory = Some ''32GB'', releaseYear = Some 2018\<rparr>,
    \<lparr>name = ''Jetson Xavier NX'', series = ''Jetson'', architecture = ''Volta'', tflops = 1.4,
      memory = Some ''16GB'', releaseYear = Some 2020\<rparr>]"

text \<open>
  \<^verbatim>\<open>getGpusBySeries()\<close> fills an object, whose keys keep their insertion order, and
  then sorts each array in place. The object is an association list. The test
  \<^verbatim>\<open>!grouped[gpu.series]\<close> holds exactly when the key is absent, since an array is never
  falsy (no series of the catalog is the name of an inherited object property).
\<close>

type_synonym grouped = "(string \<times> NvidiaGpu list) list"

definition ensureSeries :: "grouped \<Rightarrow> string \<Rightarrow> grouped" where
  "ensureSeries grouped s = (if map_of grouped s = None then grouped @ [(s, [])] else grouped)"

definition pushGpu :: "grouped \<Rightarrow> string \<Rightarrow> NvidiaGpu \<Rightarrow> grouped" where
  "pushGpu grouped s gpu = map (\<lambda>(k, v). if k = s then (k, v @ [gpu]) else (k, v)) grouped"

definition groupStep :: "grouped \<Rightarrow> NvidiaGpu \<Rightarrow> grouped" where
  "groupStep grouped gpu = pushGpu (ensureSeries grouped (series gpu)) (series gpu) gpu"

text \<open>
  \<^verbatim>\<open>Array.prototype.sort(comparefn)\<close> is stable: with a comparator that orders its
  arguments consistently the result is the one a stable insertion sort gives, where an
  element goes before the first later element it does not have to follow.
\<close>

fun insertBy :: "('a \<Rightarrow> 'a \<Rightarrow> real) \<Rightarrow> 'a \<Rightarrow> 'a list \<Rightarrow> 'a list" where
  "insertBy cmp x [] = [x]"
| "insertBy cmp x (y # ys) = (if cmp x y \<le> 0 then x # y # ys else y # insertBy cmp x ys)"

definition sortBy :: "('a \<Rightarrow> 'a \<Rightarrow> real) \<Rightarrow> 'a list \<Rightarrow> 'a list" where
  "sortBy cmp xs = foldr (insertBy cmp) xs []"

text \<open>The comparator \<^verbatim>\<open>(a, b) => b.tflops - a.tflops\<close>.\<close>

definition compareTflops :: "NvidiaGpu \<Rightarrow> NvidiaGpu \<Rightarrow> real" where
  "compareTflops a b = tflops b - tflops a"

definition getGpusBySeries :: "grouped" where
  "getGpusBySeries =
     map (\<lambda>(s, gpus). (s, sortBy compareTflops gpus)) (foldl groupStep [] nvidiaGpus)"

text \<open>
  The invariant of the grouping loop: the keys are distinct and every device stored under
  a key has that key as its series.
\<close>

definition wellGrouped :: "grouped \<Rightarrow> bool" where
  "wellGrouped grouped \<longleftrightarrow>
     distinct (map fst grouped) \<and> (\<forall>(k, v)\<in>set grouped. \<forall>g\<in>set v. series g = k)"

section \<open>Rounding\<close>

lemma roundHalfEven_of_int: "roundHalfEven (of_int n) = n"
  by (simp add: roundHalfEven_def)

lemma roundHalfEven_ge: "of_int k \<le> q \<Longrightarrow> k \<le> roundHalfEven q"
  unfolding roundHalfEven_def Let_def by (auto simp: le_floor_iff) linarith+

lemma roundHalfEven_le: "q \<le> of_int k \<Longrightarrow> roundHalfEven q \<le> k"
  unfolding roundHalfEven_def Let_def
  by (auto simp: floor_le_iff)

lemma two_powi_powr: "(2::real) powi e = 2 powr (of_int e)"
  by (simp add: powr_real_of_int')

lemma binade_normal:
  assumes "2 powi e \<le> \<bar>x\<bar>" and "\<bar>x\<bar> < 2 powi (e + 1)" and "eMin \<le> e"
  shows "binade x = e"
proof -
  have pos: "0 < \<bar>x\<bar>" using assms(1) by (smt (verit) zero_less_power_int)
  have "\<lfloor>log 2 \<bar>x\<bar>\<rfloor> = e"
    using assms(1,2) pos by (simp add: floor_log_eq_powr_iff two_powi_powr)
  then show ?thesis using assms(3) by (simp add: binade_def)
qed

lemma binade_cases:
  assumes "x \<noteq> 0"
  shows "eMin \<le> binade x \<and> \<bar>x\<bar> < 2 powi (binade x + 1) \<and>
         (2 powi binade x \<le> \<bar>x\<bar> \<or> binade x = eMin)"
proof -
  have pos: "0 < \<bar>x\<bar>" using assms by simp
  define k where "k = \<lfloor>log 2 \<bar>x\<bar>\<rfloor>"
  have k: "2 powi k \<le> \<bar>x\<bar>" "\<bar>x\<bar> < 2 powi (k + 1)"
    using pos floor_log_eq_powr_iff [of "\<bar>x\<bar>" 2 k] by (simp_all add: k_def two_powi_powr)
  show ?thesis
  proof (cases "eMin \<le> k")
    case True
    then have "binade x = k" by (simp add: binade_def k_def)
    with k True show ?thesis by simp
  next
    case False
    then have b: "binade x = eMin" by (simp add: binade_def k_def)
    have "(2::real) powi (k + 1) \<le> 2 powi (eMin + 1)"
      using False by (intro power_int_increasing) simp_all
    with k(2) b show ?thesis by simp
  qed
qed

lemma binade_subnormal:
  assumes "x \<noteq> 0" and "\<bar>x\<bar> < 2 powi eMin"
  shows "binade x = eMin"
proof -
  from binade_cases [OF assms(1)]
  have b: "eMin \<le> binade x" and c: "2 powi binade x \<le> \<bar>x\<bar> \<or> binade x = eMin"
    by simp_all
  have "(2::real) powi eMin \<le> 2 powi binade x"
    using b by (intro power_int_increasing) simp_all
  with assms(2) c show ?thesis by auto
qed

lemma ulp_pos: "0 < (2::real) powi k"
  by simp

lemma roundHalfEven_nonneg: "0 \<le> q \<Longrightarrow> 0 \<le> roundHalfEven q"
  using roundHalfEven_ge [of 0 q] by simp

text \<open>The quotient by the unit in the last place lies below \<open>2^53\<close>, and from \<open>2^52\<close> on in the normal range.\<close>

lemma quotient_bounds:
  assumes "x \<noteq> 0"
  defines "u \<equiv> 2 powi (binade x - 52)"
  shows "\<bar>x\<bar> / u < 2 ^ 53" and "2 powi binade x \<le> \<bar>x\<bar> \<Longrightarrow> 2 ^ 52 \<le> \<bar>x\<bar> / u"
proof -
  have u: "0 < u" unfolding u_def by simp
  have hi: "2 powi (binade x + 1) = u * 2 ^ 53"
    unfolding u_def by (simp add: power_int_add power_int_diff)
  have lo: "2 powi binade x = u * 2 ^ 52"
    unfolding u_def by (simp add: power_int_diff)
  from binade_cases [OF assms(1)] have "\<bar>x\<bar> < u * 2 ^ 53" unfolding hi by simp
  then show "\<bar>x\<bar> / u < 2 ^ 53" using u by (simp add: field_simps)
  show "2 ^ 52 \<le> \<bar>x\<bar> / u" if "2 powi binade x \<le> \<bar>x\<bar>"
    using that u unfolding lo by (simp add: field_simps)
qed

lemma round64_shape:
  assumes "x \<noteq> 0"
  shows "round64 x = signedZero (x < 0) \<or> round64 x = signedInf (x < 0) \<or>
         (\<exists>y. round64 x = Fin (if x < 0 then - y else y) \<and>
              2 powi (eMin - 52) \<le> y \<and> y < overflowThreshold)"
proof -
  define u where "u = (2::real) powi (binade x - 52)"
  define n where "n = roundHalfEven (\<bar>x\<bar> / u)"
  have u: "0 < u" unfolding u_def by simp
  have n0: "0 \<le> n" unfolding n_def using u by (intro roundHalfEven_nonneg) simp
  have r: "round64 x = (if n = 0 then signedZero (x < 0)
             else if overflowThreshold \<le> of_int n * u then signedInf (x < 0)
             else Fin (if x < 0 then - (of_int n * u) else of_int n * u))"
    using assms by (simp add: round64_def Let_def u_def n_def)
  show ?thesis
  proof (cases "n = 0 \<or> overflowThreshold \<le> of_int n * u")
    case True
    then show ?thesis using r by auto
  next
    case False
    then have n1: "1 \<le> n" using n0 by simp
    have "(2::real) powi (eMin - 52) \<le> u"
      unfolding u_def using binade_cases [OF assms]
      by (intro power_int_increasing) simp_all
    also have "u \<le> of_int n * u" using n1 u by simp
    finally have "2 powi (eMin - 52) \<le> of_int n * u" .
    with False r show ?thesis by auto
  qed
qed

lemma round64_not_NaN: "round64 x \<noteq> NaN"
proof (cases "x = 0")
  case True
  then show ?thesis by (simp add: round64_def)
next
  case False
  from round64_shape [OF this] show ?thesis
    by (cases "x < 0") (auto simp: signedZero_def signedInf_def)
qed

lemma tiny_pos: "0 < (2::real) powi (eMin - 52)"
  by simp

lemma round64_signBit:
  assumes "x \<noteq> 0"
  shows "signBit (round64 x) = (x < 0)"
proof -
  have pos: "0 < y" if "2 powi (eMin - 52) \<le> y" for y :: real
    using that tiny_pos [THEN less_le_trans] by blast
  from round64_shape [OF assms] show ?thesis
    by (cases "x < 0") (auto simp: signedZero_def signedInf_def dest: pos)
qed

lemma round64_finite_magnitude:
  assumes "round64 x = Fin r" and "r \<noteq> 0"
  shows "2 powi (eMin - 52) \<le> \<bar>r\<bar>"
proof (cases "x = 0")
  case True
  with assms show ?thesis by (simp add: round64_def)
next
  case False
  have pos: "0 < y" if "2 powi (eMin - 52) \<le> y" for y :: real
    using that tiny_pos [THEN less_le_trans] by blast
  from round64_shape [OF False] assms show ?thesis
    by (cases "x < 0") (auto simp: signedZero_def signedInf_def dest: pos)
qed

lemma round64_nonzero:
  assumes "2 powi (eMin - 52) \<le> \<bar>x\<bar>"
  shows "\<not> isZero (round64 x)"
proof -
  have x: "x \<noteq> 0" using assms tiny_pos by (smt (verit))
  define u where "u = (2::real) powi (binade x - 52)"
  define n where "n = roundHalfEven (\<bar>x\<bar> / u)"
  have u: "0 < u" unfolding u_def by simp
  have "1 \<le> \<bar>x\<bar> / u"
  proof (cases "2 powi binade x \<le> \<bar>x\<bar>")
    case True
    from quotient_bounds(2) [OF x True] have "2 ^ 52 \<le> \<bar>x\<bar> / u" unfolding u_def .
    moreover have "(1::real) \<le> 2 ^ 52" by simp
    ultimately show ?thesis by (rule order_trans [rotated])
  next
    case False
    with binade_cases [OF x] have "binade x = eMin" by simp
    then have "u = 2 powi (eMin - 52)" by (simp add: u_def)
    with assms u show ?thesis by (simp add: field_simps)
  qed
  then have "1 \<le> n" unfolding n_def using roundHalfEven_ge [of 1 "\<bar>x\<bar> / u"] by simp
  then have n: "n \<noteq> 0" and nu: "0 < of_int n * u" using u by simp_all
  have "round64 x = (if overflowThreshold \<le> of_int n * u then signedInf (x < 0)
             else Fin (if x < 0 then - (of_int n * u) else of_int n * u))"
    using x n by (simp add: round64_def Let_def u_def n_def)
  then show ?thesis using nu by (auto simp: signedInf_def)
qed

lemma round64_normal:
  assumes "2 powi e \<le> \<bar>x\<bar>" and "\<bar>x\<bar> < 2 powi (e + 1)" and "eMin \<le> e"
  shows "round64 x =
           (let u = 2 powi (e - 52);
                n = roundHalfEven (\<bar>x\<bar> / u);
                y = of_int n * u
            in if overflowThreshold \<le> y then signedInf (x < 0)
               else Fin (if x < 0 then - y else y))"
proof -
  have x: "x \<noteq> 0" using assms(1) ulp_pos [of e] by (smt (verit))
  have b: "binade x = e" using assms by (rule binade_normal)
  have "2 ^ 52 \<le> \<bar>x\<bar> / 2 powi (e - 52)"
    using quotient_bounds(2) [OF x] assms(1) unfolding b by simp
  then have "2 ^ 52 \<le> roundHalfEven (\<bar>x\<bar> / 2 powi (e - 52))"
    using roundHalfEven_ge [of "2 ^ 52" "\<bar>x\<bar> / 2 powi (e - 52)"] by simp
  then have "roundHalfEven (\<bar>x\<bar> / 2 powi (e - 52)) \<noteq> 0" by simp
  then show ?thesis using x by (simp add: round64_def Let_def b)
qed

lemma round64_exact:
  assumes "x = of_int m * 2 powi j" and "m \<noteq> 0" and "\<bar>m\<bar> < 2 ^ 53"
    and "eMin - 52 \<le> j" and "\<bar>x\<bar> < overflowThreshold"
  shows "round64 x = Fin x"
proof -
  have x: "x \<noteq> 0" using assms(1,2) by simp
  define e where "e = binade x"
  define u where "u = (2::real) powi (e - 52)"
  have u: "0 < u" unfolding u_def by simp
  have absx: "\<bar>x\<bar> = of_int \<bar>m\<bar> * 2 powi j"
    unfolding assms(1) by (simp add: abs_mult)
  have ej: "e - 52 \<le> j"
  proof (cases "2 powi e \<le> \<bar>x\<bar>")
    case True
    have "real_of_int \<bar>m\<bar> < 2 ^ 53" using assms(3) by simp
    then have "\<bar>x\<bar> < 2 ^ 53 * 2 powi j"
      unfolding absx by (intro mult_strict_right_mono) simp_all
    also have "\<dots> = 2 powi (53 + j)" by (simp add: power_int_add)
    finally have lt: "(2::real) powi e < 2 powi (53 + j)" using True by simp
    have "e < 53 + j"
    proof (rule ccontr)
      assume "\<not> e < 53 + j"
      then have "(2::real) powi (53 + j) \<le> 2 powi e"
        by (intro power_int_increasing) simp_all
      with lt show False by simp
    qed
    then show ?thesis by simp
  next
    case False
    with binade_cases [OF x] have "e = eMin" by (simp add: e_def)
    with assms(4) show ?thesis by simp
  qed
  define d where "d = nat (j - (e - 52))"
  have pj: "(2::real) powi j = u * 2 ^ d"
  proof -
    have "j = (e - 52) + int d" using ej by (simp add: d_def)
    then have "(2::real) powi j = 2 powi ((e - 52) + int d)" by simp
    also have "\<dots> = 2 powi (e - 52) * 2 powi (int d)" by (simp add: power_int_add)
    finally show ?thesis by (simp add: u_def)
  qed
  have q: "\<bar>x\<bar> / u = of_int (\<bar>m\<bar> * 2 ^ d)"
    unfolding absx pj using u by simp
  have n: "roundHalfEven (\<bar>x\<bar> / u) = \<bar>m\<bar> * 2 ^ d"
    unfolding q by (rule roundHalfEven_of_int)
  have n0: "\<bar>m\<bar> * 2 ^ d \<noteq> 0" using assms(2) by simp
  have y: "of_int (\<bar>m\<bar> * 2 ^ d) * u = \<bar>x\<bar>"
    using q u by (simp add: field_simps)
  have "round64 x = (if overflowThreshold \<le> \<bar>x\<bar> then signedInf (x < 0)
                      else Fin (if x < 0 then - \<bar>x\<bar> else \<bar>x\<bar>))"
    using x n0 unfolding round64_def Let_def e_def [symmetric] u_def [symmetric] n y
    by simp
  then show ?thesis using assms(5) by simp
qed

lemma round64_integer:
  assumes "x \<in> \<int>" and "\<bar>x\<bar> \<le> 2 ^ 53"
  shows "round64 x = Fin x"
proof (cases "x = 0")
  case True
  then show ?thesis by (simp add: round64_def)
next
  case False
  from assms(1) obtain m where m: "x = of_int m" by (auto elim: Ints_cases)
  have small: "\<bar>x\<bar> < overflowThreshold"
  proof -
    have "(2::real) ^ 53 < 2 ^ 1024" by (rule power_strict_increasing) simp_all
    with assms(2) show ?thesis by (simp add: overflowThreshold_def)
  qed
  show ?thesis
  proof (cases "\<bar>m\<bar> < 2 ^ 53")
    case True
    have "round64 x = Fin x"
      using False m True small
      by (intro round64_exact [where m = m and j = 0]) (simp_all add: eMin_def)
    then show ?thesis .
  next
    case F: False
    have "\<bar>m\<bar> \<le> 2 ^ 53" using assms(2) unfolding m by simp
    with F have am: "\<bar>m\<bar> = 2 ^ 53" by simp
    then have "x = of_int (sgn m) * 2 powi 53"
      using m by (cases "m < 0") (simp_all add: sgn_if)
    moreover have "sgn m \<noteq> 0" "\<bar>sgn m\<bar> < 2 ^ 53" using am by (auto simp: sgn_if)
    ultimately show ?thesis
      using small by (intro round64_exact [where m = "sgn m" and j = 53]) (simp_all add: eMin_def)
  qed
qed

lemma powi_less_imp_less: "(2::real) powi a < 2 powi b \<Longrightarrow> a < b"
proof (rule ccontr)
  assume lt: "(2::real) powi a < 2 powi b" and "\<not> a < b"
  then have "(2::real) powi b \<le> 2 powi a" by (intro power_int_increasing) simp_all
  with lt show False by simp
qed

lemma round64_scale:
  assumes "2 powi eMin \<le> \<bar>x\<bar>" and "2 powi eMin \<le> \<bar>x\<bar> * 2 powi j"
    and "round64 x = Fin r" and "\<bar>r\<bar> * 2 powi j < overflowThreshold"
  shows "round64 (x * 2 powi j) = Fin (r * 2 powi j)"
proof -
  have x: "x \<noteq> 0" using assms(1) ulp_pos [of eMin] by (smt (verit))
  define e where "e = binade x"
  from binade_cases [OF x] assms(1)
  have e: "eMin \<le> e" "\<bar>x\<bar> < 2 powi (e + 1)" "2 powi e \<le> \<bar>x\<bar>"
    unfolding e_def by auto
  define x' where "x' = x * 2 powi j"
  have ax': "\<bar>x'\<bar> = \<bar>x\<bar> * 2 powi j" by (simp add: x'_def abs_mult)
  have lo: "2 powi (e + j) \<le> \<bar>x'\<bar>"
    unfolding ax' using e(3) by (simp add: power_int_add)
  have hi: "\<bar>x'\<bar> < 2 powi (e + j + 1)"
  proof -
    have "\<bar>x\<bar> * 2 powi j < 2 powi (e + 1) * 2 powi j"
      using e(2) by (intro mult_strict_right_mono) simp_all
    also have "\<dots> = 2 powi (e + j + 1)" by (simp add: power_int_add)
    finally show ?thesis unfolding ax' .
  qed
  have "(2::real) powi eMin < 2 powi (e + j + 1)"
    using assms(2) hi unfolding ax' by simp
  then have ej: "eMin \<le> e + j" using powi_less_imp_less by fastforce
  define u where "u = (2::real) powi (e - 52)"
  define n where "n = roundHalfEven (\<bar>x\<bar> / u)"
  have u: "0 < u" unfolding u_def by simp
  have u': "(2::real) powi (e + j - 52) = u * 2 powi j"
    unfolding u_def by (simp add: power_int_add power_int_diff)
  have q': "\<bar>x'\<bar> / (u * 2 powi j) = \<bar>x\<bar> / u"
    unfolding ax' by simp
  have rx: "round64 x = (if overflowThreshold \<le> of_int n * u then signedInf (x < 0)
                          else Fin (if x < 0 then - (of_int n * u) else of_int n * u))"
    using round64_normal [OF e(3) e(2) e(1)] by (simp add: Let_def u_def n_def)
  have fin: "\<not> overflowThreshold \<le> of_int n * u"
    using rx assms(3) by (auto simp: signedInf_def split: if_splits)
  with rx assms(3) have r: "r = (if x < 0 then - (of_int n * u) else of_int n * u)" by simp
  have n0: "0 \<le> n" unfolding n_def using u by (intro roundHalfEven_nonneg) simp
  have absr: "\<bar>r\<bar> = of_int n * u" unfolding r using n0 u by simp
  have rx': "round64 x' = (if overflowThreshold \<le> of_int n * (u * 2 powi j) then signedInf (x' < 0)
                          else Fin (if x' < 0 then - (of_int n * (u * 2 powi j))
                                    else of_int n * (u * 2 powi j)))"
    using round64_normal [OF lo hi ej] unfolding Let_def u' q' n_def [symmetric] .
  have fin': "\<not> overflowThreshold \<le> of_int n * (u * 2 powi j)"
    using assms(4) unfolding absr by (simp add: mult.assoc)
  have nn: "\<not> (2::real) powi j < 0" by (simp add: not_less)
  have sg: "(x' < 0) = (x < 0)"
    unfolding x'_def by (auto simp: mult_less_0_iff nn)
  show ?thesis
    using rx' fin' unfolding x'_def [symmetric] sg r by (simp add: mult.assoc)
qed

lemma round64_idem:
  assumes "round64 x = Fin r"
  shows "round64 r = Fin r"
proof (cases "r = 0")
  case True
  then show ?thesis by (simp add: round64_def)
next
  case False
  have x: "x \<noteq> 0" using assms False by (auto simp: round64_def)
  define e where "e = binade x"
  define u where "u = (2::real) powi (e - 52)"
  define n where "n = roundHalfEven (\<bar>x\<bar> / u)"
  have u: "0 < u" unfolding u_def by simp
  have rx: "round64 x = (if n = 0 then signedZero (x < 0)
             else if overflowThreshold \<le> of_int n * u then signedInf (x < 0)
             else Fin (if x < 0 then - (of_int n * u) else of_int n * u))"
    using x by (simp add: round64_def Let_def u_def n_def e_def)
  have n0: "n \<noteq> 0" and fin: "of_int n * u < overflowThreshold"
    and r: "r = (if x < 0 then - (of_int n * u) else of_int n * u)"
    using rx assms False by (auto simp: signedZero_def signedInf_def split: if_splits)
  have npos: "0 \<le> n" unfolding n_def using u by (intro roundHalfEven_nonneg) simp
  have "\<bar>x\<bar> / u < 2 ^ 53" using quotient_bounds(1) [OF x] unfolding u_def e_def .
  then have nle: "n \<le> 2 ^ 53" unfolding n_def by (intro roundHalfEven_le) simp
  define s :: int where "s = (if x < 0 then - 1 else 1)"
  have rs: "r = of_int (s * n) * u" unfolding r s_def by simp
  have absr: "\<bar>r\<bar> < overflowThreshold" unfolding r using fin npos u by simp
  have emin: "eMin \<le> e" using binade_cases [OF x] by (simp add: e_def)
  show ?thesis
  proof (cases "n < 2 ^ 53")
    case True
    show ?thesis
    proof (rule round64_exact [where m = "s * n" and j = "e - 52"])
      show "r = of_int (s * n) * 2 powi (e - 52)" using rs by (simp add: u_def)
      show "s * n \<noteq> 0" using n0 by (simp add: s_def)
      show "\<bar>s * n\<bar> < 2 ^ 53" using True npos by (simp add: s_def abs_mult)
      show "eMin - 52 \<le> e - 52" using emin by simp
      show "\<bar>r\<bar> < overflowThreshold" by (rule absr)
    qed
  next
    case F: False
    with nle have n: "n = 2 ^ 53" by simp
    show ?thesis
    proof (rule round64_exact [where m = s and j = "e + 1"])
      have "(2::real) powi (e + 1) = 2 ^ 53 * u"
        unfolding u_def by (simp add: power_int_add power_int_diff)
      then show "r = of_int s * 2 powi (e + 1)" using rs n by simp
      show "s \<noteq> 0" by (simp add: s_def)
      show "\<bar>s\<bar> < 2 ^ 53" by (simp add: s_def)
      show "eMin - 52 \<le> e + 1" using emin by simp
      show "\<bar>r\<bar> < overflowThreshold" by (rule absr)
    qed
  qed
qed

lemma powi_below_threshold: "b \<le> 1023 \<Longrightarrow> (2::real) powi b < overflowThreshold"
proof -
  assume "b \<le> 1023"
  then have "(2::real) powi b \<le> 2 powi 1023" by (intro power_int_increasing) simp_all
  also have "(2::real) powi 1023 < 2 powi 1024" by (intro power_int_strict_increasing) simp_all
  finally show ?thesis by (simp add: overflowThreshold_def)
qed

lemma round64_range:
  assumes "2 powi a \<le> \<bar>x\<bar>" and "\<bar>x\<bar> \<le> 2 powi b" and "eMin \<le> a" and "b \<le> 1023"
  shows "\<exists>r. round64 x = Fin r \<and> 2 powi a \<le> \<bar>r\<bar> \<and> \<bar>r\<bar> \<le> 2 powi b \<and> (r < 0) = (x < 0)"
proof -
  have x: "x \<noteq> 0" using assms(1) ulp_pos [of a] by (smt (verit))
  define e where "e = binade x"
  have "(2::real) powi eMin \<le> 2 powi a" using assms(3) by (intro power_int_increasing) simp_all
  with assms(1) have "2 powi eMin \<le> \<bar>x\<bar>" by simp
  with binade_cases [OF x]
  have e: "eMin \<le> e" "\<bar>x\<bar> < 2 powi (e + 1)" "2 powi e \<le> \<bar>x\<bar>"
    unfolding e_def by auto
  have ae: "a \<le> e"
  proof -
    have "(2::real) powi a < 2 powi (e + 1)" using assms(1) e(2) by simp
    then have "a < e + 1" by (rule powi_less_imp_less)
    then show ?thesis by simp
  qed
  have eb: "e \<le> b"
  proof -
    have "(2::real) powi e < 2 powi (b + 1)"
    proof -
      have "(2::real) powi b < 2 powi (b + 1)" by (intro power_int_strict_increasing) simp_all
      with e(3) assms(2) show ?thesis by simp
    qed
    then have "e < b + 1" by (rule powi_less_imp_less)
    then show ?thesis by simp
  qed
  define u where "u = (2::real) powi (e - 52)"
  define n where "n = roundHalfEven (\<bar>x\<bar> / u)"
  have u: "0 < u" unfolding u_def by simp
  have lo: "(2::real) powi e = 2 ^ 52 * u" unfolding u_def by (simp add: power_int_diff)
  have hi: "(2::real) powi (e + 1) = 2 ^ 53 * u"
    unfolding u_def by (simp add: power_int_add power_int_diff)
  have q: "2 ^ 52 \<le> \<bar>x\<bar> / u" "\<bar>x\<bar> / u < 2 ^ 53"
    using quotient_bounds [OF x] e(3) unfolding e_def [symmetric] u_def [symmetric] by simp_all
  have n1: "2 ^ 52 \<le> n" unfolding n_def using q(1) roundHalfEven_ge [of "2 ^ 52" "\<bar>x\<bar> / u"] by simp
  have n2: "n \<le> 2 ^ 53" unfolding n_def using q(2) roundHalfEven_le [of "\<bar>x\<bar> / u" "2 ^ 53"] by simp
  have ylo: "2 powi e \<le> of_int n * u"
    unfolding lo using n1 u by (intro mult_right_mono) simp_all
  have yhi: "of_int n * u \<le> 2 powi b"
  proof (cases "e = b")
    case True
    with e(3) assms(2) have ax: "\<bar>x\<bar> = 2 powi e" by simp
    then have "\<bar>x\<bar> / u = of_int (2 ^ 52)" unfolding lo using u by simp
    then have "n = 2 ^ 52" unfolding n_def by (simp only: roundHalfEven_of_int)
    then show ?thesis using lo True by simp
  next
    case False
    with eb have "e + 1 \<le> b" by simp
    then have "(2::real) powi (e + 1) \<le> 2 powi b" by (intro power_int_increasing) simp_all
    moreover have "of_int n * u \<le> 2 ^ 53 * u"
      using n2 u by (intro mult_right_mono) simp_all
    ultimately show ?thesis unfolding hi by simp
  qed
  have fin: "\<not> overflowThreshold \<le> of_int n * u"
    using yhi powi_below_threshold [OF assms(4)] by simp
  have rx: "round64 x = Fin (if x < 0 then - (of_int n * u) else of_int n * u)"
    using round64_normal [OF e(3) e(2) e(1)] fin by (simp add: Let_def u_def n_def)
  have ypos: "0 < of_int n * u" using ylo ulp_pos [of e] by (smt (verit))
  have alo: "(2::real) powi a \<le> of_int n * u"
  proof -
    have "(2::real) powi a \<le> 2 powi e" using ae by (intro power_int_increasing) simp_all
    with ylo show ?thesis by simp
  qed
  show ?thesis
    using rx ypos alo yhi by (cases "x < 0") auto
qed

section \<open>Arithmetic of the numbers\<close>

lemmas number_ops = numMul_def numDiv_def numAdd_def signedZero_def signedInf_def

lemma numMul_Fin: "a \<noteq> 0 \<Longrightarrow> b \<noteq> 0 \<Longrightarrow> numMul (Fin a) (Fin b) = round64 (a * b)"
  by (simp add: numMul_def)

lemma numDiv_Fin: "a \<noteq> 0 \<Longrightarrow> b \<noteq> 0 \<Longrightarrow> numDiv (Fin a) (Fin b) = round64 (a / b)"
  by (simp add: numDiv_def)

lemma numMul_zero_right: "0 \<le> a \<Longrightarrow> numMul (Fin a) (Fin 0) = Fin 0"
  by (simp add: number_ops not_less)

lemma numMul_zero_left: "0 \<le> b \<Longrightarrow> numMul (Fin 0) (Fin b) = Fin 0"
  by (simp add: number_ops not_less)

lemma round64_of_int:
  assumes "\<bar>k\<bar> \<le> 2 ^ 53"
  shows "round64 (of_int k) = Fin (of_int k)"
proof -
  have "real_of_int \<bar>k\<bar> \<le> 2 ^ 53" using assms by simp
  then have "\<bar>real_of_int k\<bar> \<le> 2 ^ 53" by simp
  then show ?thesis by (intro round64_integer) simp_all
qed


lemma numAdd_integers:
  assumes "\<bar>a + b\<bar> \<le> 2 ^ 53"
  shows "numAdd (Fin (of_int a)) (Fin (of_int b)) = Fin (of_int (a + b))"
proof -
  have "round64 (of_int (a + b)) = Fin (of_int (a + b))"
    using assms by (rule round64_of_int)
  then have "round64 (of_int a + of_int b) = Fin (of_int a + of_int b)"
    by (simp only: of_int_add)
  then show ?thesis by (auto simp: numAdd_def signedZero_def)
qed

lemma numSub_one:
  assumes "\<bar>n - 1\<bar> \<le> 2 ^ 53"
  shows "numSub (Fin (of_int n)) (Fin 1) = Fin (of_int (n - 1))"
  using numAdd_integers [of n "- 1"] assms by (simp add: numSub_def)

lemma numNe_Fin: "numNe (Fin x) (Fin y) = (x \<noteq> y)"
  by auto

section \<open>Integers beyond the exact range\<close>




lemma numSub_Fin_one: "numSub (Fin 1) (Fin 1) = Fin 0" "numSub (Fin 0) (Fin 1) = Fin (- 1)"
  using numSub_one [of 1] numSub_one [of 0] by simp_all

section \<open>Printing with a fixed number of decimals\<close>

text \<open>With a positive digit count and a magnitude below \<open>10^21\<close>, the point stands before the last \<open>f\<close> characters.\<close>

lemma decimal_nonempty: "decimal n \<noteq> []"
  by (subst decimal.simps) simp

lemma toFixedFinite_point:
  assumes "0 < f" and "\<bar>x\<bar> < 10 ^ 21"
  shows "f + 2 \<le> length (toFixedFinite f x) \<and> rev (toFixedFinite f x) ! f = CHR ''.''"
proof -
  define n where "n = nat \<lfloor>\<bar>x\<bar> * 10 ^ f + 1 / 2\<rfloor>"
  define m where "m = (if length (decimal n) \<le> f
                       then replicate (f + 1 - length (decimal n)) (CHR ''0'') @ decimal n
                       else decimal n)"
  define sgn where "sgn = (if x < 0 then ''-'' else '''')"
  have len: "f + 1 \<le> length m"
    unfolding m_def by simp
  have eq: "toFixedFinite f x = sgn @ take (length m - f) m @ ''.'' @ drop (length m - f) m"
    using assms unfolding toFixedFinite_def Let_def m_def n_def sgn_def
    by (auto simp: abs_if)
  have d: "length (drop (length m - f) m) = f" using len by simp
  have t: "1 \<le> length (take (length m - f) m)" using len by simp
  have "rev (toFixedFinite f x) =
          rev (drop (length m - f) m) @ CHR ''.'' # rev (take (length m - f) m) @ rev sgn"
    unfolding eq by simp
  then have "rev (toFixedFinite f x) ! f = CHR ''.''"
    using d by (simp add: nth_append)
  moreover have "f + 2 \<le> length (toFixedFinite f x)"
    unfolding eq using d t by simp
  ultimately show ?thesis by simp
qed

lemma toFixedFinite_3_zero: "toFixedFinite 3 0 = ''0.000''"
  apply (simp add: toFixedFinite_def Let_def)
  apply (simp add: decimal.simps digitChar_def eval_nat_numeral)
  done

lemma toFixed_zero: "isZero z \<Longrightarrow> toFixed 3 z = ''0.000''"
  by (cases z) (auto simp: toFixedFinite_3_zero)

lemma toFixedFinite_6_two: "toFixedFinite 6 2 = ''2.000000''"
  apply (simp add: toFixedFinite_def Let_def)
  apply (simp add: decimal.simps digitChar_def)
  done

lemma toFixedFinite_3_scenario: "toFixedFinite 3 (6208038870959944 / 2 ^ 60) = ''0.005''"
  apply (simp add: toFixedFinite_def Let_def)
  apply (simp add: decimal.simps digitChar_def eval_nat_numeral)
  done

section \<open>Signs and zeros under the operators\<close>

lemma numMul_NaN_left: "numMul NaN y = NaN"
  by (simp add: numMul_def)

lemma numDiv_by_NaN: "numDiv x NaN = NaN"
  by (simp add: numDiv_def)

lemma numMul_zero_pos:
  assumes "isZero z" and "0 < c"
  shows "isZero (numMul z (Fin c))"
  using assms by (cases z) (auto simp: number_ops)

lemma numMul_zero_any: "isZero z \<Longrightarrow> numMul z y = NaN \<or> isZero (numMul z y)"
  by (cases z; cases y) (auto simp: number_ops)

lemma numDiv_zero:
  assumes "y \<noteq> NaN" and "\<not> isZero y"
  shows "isZero (numDiv (Fin 0) y)"
  using assms by (cases y) (auto simp: number_ops)

lemma numDiv_zero_zero:
  assumes "isZero y"
  shows "numDiv (Fin 0) y = NaN"
  using assms by (cases y) (auto simp: number_ops)

lemma numDiv_by_zero: "isZero y \<Longrightarrow> numDiv x y \<in> {PosInf, NegInf, NaN}"
  by (cases y) (auto simp: number_ops)

lemma isZero_not_ge_one: "isZero z \<Longrightarrow> \<not> numGe z (Fin 1)"
  by (cases z) auto

lemma signBit_not_ge_one: "signBit z \<Longrightarrow> \<not> numGe z (Fin 1)"
  by (cases z) auto

text \<open>A nonzero finite result of an operator is at least the smallest subnormal in magnitude.\<close>

lemma numMul_finite_magnitude:
  assumes "numMul x y = Fin r" and "r \<noteq> 0"
  shows "2 powi (eMin - 52) \<le> \<bar>r\<bar>"
proof -
  have "round64 (magnitude x * magnitude y) = Fin r"
    using assms by (auto simp: number_ops split: if_splits)
  then show ?thesis using assms(2) by (rule round64_finite_magnitude)
qed

lemma numMul_scale_up:
  assumes "numMul x y = a" and "a \<noteq> NaN" and "\<not> isZero a" and "1 \<le> c"
  shows "numMul a (Fin c) \<noteq> NaN \<and> \<not> isZero (numMul a (Fin c))"
proof (cases a)
  case (Fin r)
  with assms(3) have r: "r \<noteq> 0" by simp
  have c: "c \<noteq> 0" using assms(4) by simp
  have "2 powi (eMin - 52) \<le> \<bar>r\<bar>"
    using assms(1) r unfolding Fin by (rule numMul_finite_magnitude)
  also have "\<bar>r\<bar> \<le> \<bar>r\<bar> * c" using assms(4) by (simp add: mult_le_cancel_left1)
  also have "\<dots> = \<bar>r * c\<bar>" using assms(4) by (simp add: abs_mult)
  finally have "\<not> isZero (round64 (r * c))" by (rule round64_nonzero)
  then show ?thesis
    unfolding Fin using r c by (simp add: numMul_Fin round64_not_NaN)
next
  case NegZero
  with assms(3) show ?thesis by simp
next
  case PosInf
  then show ?thesis using assms(4) by (simp add: number_ops)
next
  case NegInf
  then show ?thesis using assms(4) by (simp add: number_ops)
next
  case NaN
  with assms(2) show ?thesis by simp
qed

lemma numMul_sign:
  assumes "x \<noteq> NaN" and "y \<noteq> NaN"
    and "\<not> (isInf x \<and> isZero y)" and "\<not> (isZero x \<and> isInf y)"
  shows "numMul x y \<noteq> NaN \<and> signBit (numMul x y) = (signBit x \<noteq> signBit y)"
proof (cases "isInf x \<or> isInf y \<or> isZero x \<or> isZero y")
  case True
  then show ?thesis using assms by (auto simp: number_ops)
next
  case False
  then obtain a b where ab: "x = Fin a" "y = Fin b" "a \<noteq> 0" "b \<noteq> 0"
    using assms(1,2) by (cases x; cases y) auto
  then have "a * b \<noteq> 0" by simp
  from round64_signBit [OF this] round64_not_NaN [of "a * b"] show ?thesis
    unfolding ab(1,2) using ab(3,4) by (auto simp: numMul_Fin mult_less_0_iff)
qed

lemma numDiv_sign:
  assumes "x \<noteq> NaN" and "y \<noteq> NaN"
    and "\<not> (isInf x \<and> isInf y)" and "\<not> (isZero x \<and> isZero y)"
  shows "numDiv x y \<noteq> NaN \<and> signBit (numDiv x y) = (signBit x \<noteq> signBit y)"
proof (cases "isInf x \<or> isInf y \<or> isZero x \<or> isZero y")
  case True
  then show ?thesis using assms by (auto simp: number_ops)
next
  case False
  then obtain a b where ab: "x = Fin a" "y = Fin b" "a \<noteq> 0" "b \<noteq> 0"
    using assms(1,2) by (cases x; cases y) auto
  then have "a / b \<noteq> 0" by simp
  from round64_signBit [OF this] round64_not_NaN [of "a / b"] show ?thesis
    unfolding ab(1,2) using ab(3,4) by (auto simp: numDiv_Fin divide_less_0_iff)
qed

section \<open>The estimate on concrete inputs\<close>

lemma fp32_multiplier: "multiplier (precisionTypes ! 0) = Fin 1"
  by (simp add: precisionTypes_def)

lemma int8_multiplier: "multiplier (precisionTypes ! 3) = Fin 4"
  by (simp add: precisionTypes_def)

lemma seconds_eq:
  "seconds (calculateExecutionTime tf g p) =
     numDiv tf (numMul (numMul g (multiplier p)) (Fin (10 ^ 12)))"
  by (simp add: calculateExecutionTime_def Let_def getAdjustedTflops_def)

lemma round64_numeral:
  "numeral k \<le> (2::real) ^ 53 \<Longrightarrow> round64 (numeral k) = Fin (numeral k)"
  by (intro round64_integer) simp_all

lemma round64_one: "round64 1 = Fin 1"
  by (intro round64_integer) simp_all

lemma round64_19_5: "round64 (195 / 10) = Fin (195 / 10)"
  using round64_exact [of "195 / 10" 39 "- 1"] by (simp add: eMin_def overflowThreshold_def)

text \<open>The four roundings on the way from 105 operations at 19.5 TFLOPS to nanoseconds.\<close>

lemma scenario_seconds:
  "round64 (105 / 19500000000000) = Fin (6665830980767432 / 2 ^ 90)"
  using round64_normal [of "- 38" "105 / 19500000000000"]
  by (simp add: eMin_def overflowThreshold_def roundHalfEven_def Let_def)

lemma scenario_milliseconds:
  "round64 (6665830980767432 / 2 ^ 90 * 1000) = Fin (6509600567155695 / 2 ^ 80)"
  using round64_normal [of "- 28" "6665830980767432 / 2 ^ 90 * 1000"]
  by (simp add: eMin_def overflowThreshold_def roundHalfEven_def Let_def)

lemma scenario_microseconds:
  "round64 (6509600567155695 / 2 ^ 80 * 1000) = Fin (6357031803862983 / 2 ^ 70)"
  using round64_normal [of "- 18" "6509600567155695 / 2 ^ 80 * 1000"]
  by (simp add: eMin_def overflowThreshold_def roundHalfEven_def Let_def)

lemma scenario_nanoseconds:
  "round64 (6357031803862983 / 2 ^ 70 * 1000) = Fin (6208038870959944 / 2 ^ 60)"
  using round64_normal [of "- 8" "6357031803862983 / 2 ^ 70 * 1000"]
  by (simp add: eMin_def overflowThreshold_def roundHalfEven_def Let_def)

lemma scenario_record:
  "calculateExecutionTime (Fin 105) (Fin 19.5) (precisionTypes ! 0) =
     \<lparr>seconds = Fin (6665830980767432 / 2 ^ 90),
      milliseconds = Fin (6509600567155695 / 2 ^ 80),
      microseconds = Fin (6357031803862983 / 2 ^ 70),
      nanoseconds = Fin (6208038870959944 / 2 ^ 60),
      formatted = ''0.005 ns''\<rparr>"
proof -
  have adj: "getAdjustedTflops (Fin 19.5) (precisionTypes ! 0) = Fin (195 / 10)"
    unfolding getAdjustedTflops_def fp32_multiplier using round64_19_5 by (simp add: numMul_Fin)
  have den: "numMul (Fin (195 / 10)) (Fin (10 ^ 12)) = Fin 19500000000000"
    by (simp add: numMul_Fin round64_numeral)
  have s: "numDiv (Fin 105) (Fin 19500000000000) = Fin (6665830980767432 / 2 ^ 90)"
    using scenario_seconds by (simp add: numDiv_Fin)
  have ms: "numMul (Fin (6665830980767432 / 2 ^ 90)) (Fin 1000) = Fin (6509600567155695 / 2 ^ 80)"
    using scenario_milliseconds by (simp add: numMul_Fin)
  have us: "numMul (Fin (6509600567155695 / 2 ^ 80)) (Fin 1000) = Fin (6357031803862983 / 2 ^ 70)"
    using scenario_microseconds by (simp add: numMul_Fin)
  have ns: "numMul (Fin (6357031803862983 / 2 ^ 70)) (Fin 1000) = Fin (6208038870959944 / 2 ^ 60)"
    using scenario_nanoseconds by (simp add: numMul_Fin)
  have ge: "\<not> numGe (Fin (6665830980767432 / 2 ^ 90)) (Fin 1)"
    "\<not> numGe (Fin (6509600567155695 / 2 ^ 80)) (Fin 1)"
    "\<not> numGe (Fin (6357031803862983 / 2 ^ 70)) (Fin 1)"
    by simp_all
  have str: "toFixed 3 (Fin (6208038870959944 / 2 ^ 60)) @ '' ns'' = ''0.005 ns''"
    using toFixedFinite_3_scenario by simp
  show ?thesis
    unfolding calculateExecutionTime_def Let_def adj den s ms us ns
    by (simp only: ge str if_False)
qed

lemma zero_record:
  "calculateExecutionTime (Fin 0) (Fin 67) (precisionTypes ! 0) =
     \<lparr>seconds = Fin 0, milliseconds = Fin 0, microseconds = Fin 0, nanoseconds = Fin 0,
      formatted = ''0.000 ns''\<rparr>"
proof -
  have adj: "getAdjustedTflops (Fin 67) (precisionTypes ! 0) = Fin 67"
    unfolding getAdjustedTflops_def fp32_multiplier by (simp add: numMul_Fin round64_numeral)
  have den: "numMul (Fin 67) (Fin (10 ^ 12)) = Fin 67000000000000"
    by (simp add: numMul_Fin round64_numeral)
  have s: "numDiv (Fin 0) (Fin 67000000000000) = Fin 0"
    by (simp add: number_ops)
  have ms: "numMul (Fin 0) (Fin 1000) = Fin 0"
    by (simp add: numMul_zero_left)
  have ge: "\<not> numGe (Fin 0) (Fin 1)" by simp
  have str: "toFixed 3 (Fin 0) @ '' ns'' = ''0.000 ns''"
    by (simp add: toFixedFinite_3_zero)
  show ?thesis
    unfolding calculateExecutionTime_def Let_def adj den s ms
    by (simp only: ge str if_False)
qed

lemma two_seconds_record:
  "formatted (calculateExecutionTime (Fin (2 * 10 ^ 12)) (Fin 1) (precisionTypes ! 0)) =
     ''2.000000 s''"
proof -
  have adj: "getAdjustedTflops (Fin 1) (precisionTypes ! 0) = Fin 1"
    unfolding getAdjustedTflops_def fp32_multiplier by (simp add: numMul_Fin round64_one)
  have den: "numMul (Fin 1) (Fin (10 ^ 12)) = Fin 1000000000000"
    by (simp add: numMul_Fin round64_numeral)
  have s: "numDiv (Fin (2 * 10 ^ 12)) (Fin 1000000000000) = Fin 2"
    by (simp add: numDiv_Fin round64_numeral)
  have ge: "numGe (Fin 2) (Fin 1)" by simp
  have str: "toFixed 6 (Fin 2) @ '' s'' = ''2.000000 s''"
    by (simp add: toFixedFinite_6_two)
  show ?thesis
    unfolding calculateExecutionTime_def Let_def adj den s
    by (simp only: ge str if_True ExecutionTime.select_convs)
qed

section \<open>Scaling by the precision multiplier\<close>

lemma round64_58_5: "round64 (195 / 10 * 3) = Fin (117 / 2)"
  using round64_exact [of "117 / 2" 117 "- 1"] by (simp add: eMin_def overflowThreshold_def)

lemma third_seconds:
  "round64 (105 / 58500000000000) = Fin (8887774641023243 / 2 ^ 92)"
  using round64_normal [of "- 40" "105 / 58500000000000"]
  by (simp add: eMin_def overflowThreshold_def roundHalfEven_def Let_def)

lemma one_third: "round64 (1 / 3) = Fin (6004799503160661 / 2 ^ 54)"
  using round64_normal [of "- 2" "1 / 3"]
  by (simp add: eMin_def overflowThreshold_def roundHalfEven_def Let_def)

lemma third_of_baseline:
  "round64 (6004799503160661 / 2 ^ 54 * (6665830980767432 / 2 ^ 90)) =
     Fin (8887774641023242 / 2 ^ 92)"
  using round64_normal [of "- 40" "6004799503160661 / 2 ^ 54 * (6665830980767432 / 2 ^ 90)"]
  by (simp add: eMin_def overflowThreshold_def roundHalfEven_def Let_def)

lemma int4_multiplier: "multiplier (precisionTypes ! 4) = Fin 8"
  by (simp add: precisionTypes_def)

lemma big_adjusted: "round64 (2 ^ 982 * 8) = Fin (2 ^ 985)"
  using round64_exact [of "2 ^ 985" 1 985] by (simp add: eMin_def overflowThreshold_def)

lemma big_overflow: "round64 (2 ^ 985 * 10 ^ 12) = PosInf"
  using round64_normal [of 1024 "2 ^ 985 * 10 ^ 12"]
  by (simp add: eMin_def overflowThreshold_def roundHalfEven_def Let_def signedInf_def)

lemma big_baseline_adjusted: "round64 (2 ^ 982) = Fin (2 ^ 982)"
  using round64_exact [of "2 ^ 982" 1 982] by (simp add: eMin_def overflowThreshold_def)

lemma big_baseline_denominator: "round64 (2 ^ 982 * 10 ^ 12) = Fin (2 ^ 982 * 10 ^ 12)"
  using round64_exact [of "2 ^ 982 * 10 ^ 12" 244140625 994]
  by (simp add: eMin_def overflowThreshold_def)

lemma big_baseline_seconds:
  "round64 (2 ^ 1000 / (2 ^ 982 * 10 ^ 12)) = Fin (4951760157141521 / 2 ^ 74)"
  using round64_normal [of "- 22" "2 ^ 1000 / (2 ^ 982 * 10 ^ 12)"]
  by (simp add: eMin_def overflowThreshold_def roundHalfEven_def Let_def)

lemma one_eighth: "round64 (1 / 8) = Fin (1 / 8)"
  using round64_exact [of "1 / 8" 1 "- 3"] by (simp add: eMin_def overflowThreshold_def)

lemma eighth_of_baseline:
  "round64 (1 / 8 * (4951760157141521 / 2 ^ 74)) = Fin (4951760157141521 / 2 ^ 77)"
  using round64_exact [of "4951760157141521 / 2 ^ 77" 4951760157141521 "- 77"]
  by (simp add: eMin_def overflowThreshold_def)

lemma powi_mono: "a \<le> b \<Longrightarrow> (2::real) powi a \<le> 2 powi b"
  by (intro power_int_increasing) simp_all

lemma range_mult:
  fixes x y :: real
  assumes "2 powi a \<le> x" and "x \<le> 2 powi b" and "2 powi c \<le> y" and "y \<le> 2 powi d"
  shows "2 powi (a + c) \<le> x * y" and "x * y \<le> 2 powi (b + d)"
proof -
  have x: "0 < x" using assms(1) ulp_pos [of a] by (rule less_le_trans [rotated])
  have y: "0 < y" using assms(3) ulp_pos [of c] by (rule less_le_trans [rotated])
  have "2 powi a * 2 powi c \<le> x * y"
    using assms(1,3) x y by (intro mult_mono) simp_all
  then show "2 powi (a + c) \<le> x * y" by (simp add: power_int_add)
  have "x * y \<le> 2 powi b * 2 powi d"
    using assms(2,4) x y by (intro mult_mono) simp_all
  then show "x * y \<le> 2 powi (b + d)" by (simp add: power_int_add)
qed

lemma range_mult_lower:
  fixes x y :: real
  assumes "2 powi a \<le> x" and "2 powi c \<le> y"
  shows "2 powi (a + c) \<le> x * y"
proof -
  have x: "0 < x" using assms(1) ulp_pos [of a] by (rule less_le_trans [rotated])
  have "2 powi a * 2 powi c \<le> x * y"
    using assms x by (intro mult_mono) simp_all
  then show ?thesis by (simp add: power_int_add)
qed

lemma range_div:
  fixes x y :: real
  assumes "2 powi a \<le> x" and "x \<le> 2 powi b" and "2 powi c \<le> y" and "y \<le> 2 powi d"
  shows "2 powi (a - d) \<le> x / y" and "x / y \<le> 2 powi (b - c)"
proof -
  have y: "0 < y" using assms(3) ulp_pos [of c] by (rule less_le_trans [rotated])
  have i: "2 powi (- d) \<le> inverse y" "inverse y \<le> 2 powi (- c)"
    using assms(3,4) y by (simp_all add: power_int_minus le_imp_inverse_le)
  from range_mult [OF assms(1,2) i] show "2 powi (a - d) \<le> x / y" "x / y \<le> 2 powi (b - c)"
    by (simp_all add: divide_inverse)
qed

lemma ten_12_range: "2 powi 39 \<le> (10::real) ^ 12" "(10::real) ^ 12 \<le> 2 powi 40"
  by simp_all

lemma reciprocal_power_of_two:
  assumes "- 1000 \<le> j" and "j \<le> 1000"
  shows "numDiv (Fin 1) (Fin (2 powi j)) = Fin (2 powi (- j))"
proof -
  have "round64 (2 powi (- j)) = Fin (2 powi (- j))"
  proof (rule round64_exact [where m = 1 and j = "- j"])
    show "(2::real) powi (- j) = of_int 1 * 2 powi (- j)" by simp
    show "eMin - 52 \<le> - j" using assms by (simp add: eMin_def)
    show "\<bar>(2::real) powi (- j)\<bar> < overflowThreshold"
      using powi_below_threshold [of "- j"] assms by simp
  qed simp_all
  moreover have "1 / 2 powi j = (2::real) powi (- j)"
    by (simp add: power_int_minus divide_inverse)
  ultimately show ?thesis by (simp add: numDiv_Fin)
qed

lemma scaling_denominator:
  fixes A J j :: int
  assumes t: "round64 t = Fin t" "2 powi (- A) \<le> t" "t \<le> 2 powi A"
    and j: "- J \<le> j" "j \<le> J"
    and room: "2 * A + J + 40 \<le> 1022" "0 \<le> A" "0 \<le> J"
  obtains D where "0 < D" and "2 powi (- A + 39) \<le> D" and "D \<le> 2 powi (A + 40)"
    and "numMul (numMul (Fin t) (Fin (2 powi j))) (Fin (10 ^ 12)) = Fin (D * 2 powi j)"
    and "numMul (numMul (Fin t) (Fin 1)) (Fin (10 ^ 12)) = Fin D"
proof -
  have em: "eMin = - 1022" by (rule eMin_def)
  have tpos: "0 < t" using t(2) ulp_pos [of "- A"] by (rule less_le_trans [rotated])
  have pjr: "2 powi (- J) \<le> (2::real) powi j" "(2::real) powi j \<le> 2 powi J"
    using j by (simp_all add: powi_mono)
  have at: "\<bar>t\<bar> = t" using tpos by simp
  have adj1: "numMul (Fin t) (Fin 1) = Fin t"
    using tpos t(1) by (simp add: numMul_Fin)
  have tj: "2 powi (- A + - J) \<le> t * 2 powi j" "t * 2 powi j \<le> 2 powi (A + J)"
    using range_mult [OF t(2,3) pjr] by simp_all
  have "round64 (t * 2 powi j) = Fin (t * 2 powi j)"
  proof (rule round64_scale [OF _ _ t(1)])
    show "2 powi eMin \<le> \<bar>t\<bar>"
      unfolding at using t(2) powi_mono [of eMin "- A"] room by (simp add: em)
    show "2 powi eMin \<le> \<bar>t\<bar> * 2 powi j"
      unfolding at using tj(1) powi_mono [of eMin "- A + - J"] room by (simp add: em)
    show "\<bar>t\<bar> * 2 powi j < overflowThreshold"
      unfolding at using tj(2) powi_mono [of "A + J" 1023] powi_below_threshold [of 1023] room
      by simp
  qed
  then have adjk: "numMul (Fin t) (Fin (2 powi j)) = Fin (t * 2 powi j)"
    using tpos by (simp add: numMul_Fin)
  have x1: "2 powi (- A + 39) \<le> t * 10 ^ 12" "t * 10 ^ 12 \<le> 2 powi (A + 40)"
    using range_mult [OF t(2,3) ten_12_range] by simp_all
  have x1a: "\<bar>t * 10 ^ 12\<bar> = t * 10 ^ 12" using tpos by simp
  obtain D where D: "round64 (t * 10 ^ 12) = Fin D" "2 powi (- A + 39) \<le> \<bar>D\<bar>"
    "\<bar>D\<bar> \<le> 2 powi (A + 40)" "(D < 0) = (t * 10 ^ 12 < 0)"
    using round64_range [of "- A + 39" "t * 10 ^ 12" "A + 40"] x1 x1a room by (auto simp: em)
  have Dpos: "0 < D"
    using D(2,4) tpos ulp_pos [of "- A + 39"] by (smt (verit) mult_pos_pos zero_less_power)
  have aD: "\<bar>D\<bar> = D" using Dpos by simp
  have den1: "numMul (Fin t) (Fin (10 ^ 12)) = Fin D"
    using tpos D(1) by (simp add: numMul_Fin)
  have Dj: "D * 2 powi j \<le> 2 powi (A + 40 + J)"
    using range_mult(2) [OF D(2,3) [unfolded aD] pjr] by simp
  have "round64 (t * 10 ^ 12 * 2 powi j) = Fin (D * 2 powi j)"
  proof (rule round64_scale [OF _ _ D(1)])
    show "2 powi eMin \<le> \<bar>t * 10 ^ 12\<bar>"
      unfolding x1a using x1(1) powi_mono [of eMin "- A + 39"] room by (simp add: em)
    have "2 powi (- A + 39 + - J) \<le> t * 10 ^ 12 * 2 powi j"
      using range_mult_lower [OF x1(1) pjr(1)] by simp
    then show "2 powi eMin \<le> \<bar>t * 10 ^ 12\<bar> * 2 powi j"
      unfolding x1a using powi_mono [of eMin "- A + 39 + - J"] room by (simp add: em)
    show "\<bar>D\<bar> * 2 powi j < overflowThreshold"
      unfolding aD using Dj powi_mono [of "A + 40 + J" 1023] powi_below_threshold [of 1023] room
      by simp
  qed
  moreover have "t * 2 powi j * 10 ^ 12 = t * 10 ^ 12 * 2 powi j"
    by algebra
  ultimately have "round64 (t * 2 powi j * 10 ^ 12) = Fin (D * 2 powi j)"
    by (simp only:)
  then have denk: "numMul (Fin (t * 2 powi j)) (Fin (10 ^ 12)) = Fin (D * 2 powi j)"
    using tpos by (simp add: numMul_Fin)
  show thesis
    using that [of D] Dpos D(2,3) [unfolded aD] adjk denk adj1 den1 by simp
qed

lemma scaling_core:
  fixes A J j :: int
  assumes t: "round64 t = Fin t" "2 powi (- A) \<le> t" "t \<le> 2 powi A"
    and f: "f = 0 \<or> 2 powi (- A) \<le> \<bar>f\<bar> \<and> \<bar>f\<bar> \<le> 2 powi A"
    and j: "- J \<le> j" "j \<le> J"
    and room: "2 * A + J + 40 \<le> 1022" "0 \<le> A" "0 \<le> J"
  shows "numDiv (Fin f) (numMul (numMul (Fin t) (Fin (2 powi j))) (Fin (10 ^ 12))) =
         numMul (numDiv (Fin 1) (Fin (2 powi j)))
           (numDiv (Fin f) (numMul (numMul (Fin t) (Fin 1)) (Fin (10 ^ 12))))"
proof -
  have em: "eMin = - 1022" by (rule eMin_def)
  obtain D where D: "0 < D" "2 powi (- A + 39) \<le> D" "D \<le> 2 powi (A + 40)"
    and denk: "numMul (numMul (Fin t) (Fin (2 powi j))) (Fin (10 ^ 12)) = Fin (D * 2 powi j)"
    and den1: "numMul (numMul (Fin t) (Fin 1)) (Fin (10 ^ 12)) = Fin D"
    using t j room by (rule scaling_denominator)
  have inv: "numDiv (Fin 1) (Fin (2 powi j)) = Fin (2 powi (- j))"
    using j room by (intro reciprocal_power_of_two) simp_all
  have Dj: "0 < D * 2 powi j" using D(1) by simp
  have pjn: "2 powi (- J) \<le> (2::real) powi (- j)" "(2::real) powi (- j) \<le> 2 powi J"
    using j by (simp_all add: powi_mono)
  show ?thesis
  proof (cases "f = 0")
    case True
    have "numDiv (Fin 0) (Fin y) = Fin 0" if "0 < y" for y :: real
      using that by (simp add: number_ops)
    then have "numDiv (Fin 0) (Fin (D * 2 powi j)) = Fin 0" "numDiv (Fin 0) (Fin D) = Fin 0"
      using Dj D(1) by blast+
    moreover have "numMul (Fin (2 powi (- j))) (Fin 0) = Fin 0"
      by (simp add: numMul_zero_right)
    ultimately show ?thesis
      unfolding denk den1 inv True by simp
  next
    case f0: False
    with f have fr: "2 powi (- A) \<le> \<bar>f\<bar>" "\<bar>f\<bar> \<le> 2 powi A" by simp_all
    have x2: "2 powi (- A - (A + 40)) \<le> \<bar>f / D\<bar>" "\<bar>f / D\<bar> \<le> 2 powi (A - (- A + 39))"
      using range_div [OF fr D(2,3)] D(1) by simp_all
    obtain s where s: "round64 (f / D) = Fin s" "2 powi (- A - (A + 40)) \<le> \<bar>s\<bar>"
      "\<bar>s\<bar> \<le> 2 powi (A - (- A + 39))"
      using round64_range [of "- A - (A + 40)" "f / D" "A - (- A + 39)"] x2 room
      by (auto simp: em)
    have sec1: "numDiv (Fin f) (Fin D) = Fin s"
      using f0 D(1) s(1) by (simp add: numDiv_Fin)
    have sj: "\<bar>s\<bar> * 2 powi (- j) \<le> 2 powi (A - (- A + 39) + J)"
      using range_mult(2) [OF s(2,3) pjn] by simp
    have lowj: "2 powi eMin \<le> y * 2 powi (- j)" if "2 powi (- A - (A + 40)) \<le> y" for y :: real
    proof -
      have "2 powi (- A - (A + 40) + - J) \<le> y * 2 powi (- j)"
        using range_mult_lower [OF that pjn(1)] by simp
      then show ?thesis
        using powi_mono [of eMin "- A - (A + 40) + - J"] room by (simp add: em)
    qed
    have low: "2 powi eMin \<le> y" if "2 powi (- A - (A + 40)) \<le> y" for y :: real
      using that powi_mono [of eMin "- A - (A + 40)"] room by (simp add: em)
    have high: "\<bar>s\<bar> * 2 powi (- j) < overflowThreshold"
      using sj powi_mono [of "A - (- A + 39) + J" 1023] powi_below_threshold [of 1023] room
      by simp
    have "round64 (f / D * 2 powi (- j)) = Fin (s * 2 powi (- j))"
      using low [OF x2(1)] lowj [OF x2(1)] s(1) high by (rule round64_scale)
    moreover have "f / (D * 2 powi j) = f / D * 2 powi (- j)"
      by (simp add: power_int_minus divide_inverse)
    ultimately have "round64 (f / (D * 2 powi j)) = Fin (s * 2 powi (- j))" by simp
    then have seck: "numDiv (Fin f) (Fin (D * 2 powi j)) = Fin (s * 2 powi (- j))"
      using f0 D(1) by (simp add: numDiv_Fin)
    have s0: "s \<noteq> 0" using s(2) ulp_pos [of "- A - (A + 40)"] by (smt (verit))
    have "round64 (s * 2 powi (- j)) = Fin (s * 2 powi (- j))"
      using low [OF s(2)] lowj [OF s(2)] round64_idem [OF s(1)] high by (rule round64_scale)
    then have prod: "numMul (Fin (2 powi (- j))) (Fin s) = Fin (s * 2 powi (- j))"
      using s0 by (simp add: numMul_Fin mult.commute)
    show ?thesis
      unfolding denk seck den1 sec1 inv prod ..
  qed
qed

section \<open>Sorting by the comparator\<close>

lemma mset_insertBy: "mset (insertBy cmp x xs) = add_mset x (mset xs)"
  by (induction xs) simp_all

lemma mset_sortBy: "mset (sortBy cmp xs) = mset xs"
  unfolding sortBy_def by (induction xs) (simp_all add: mset_insertBy)

lemma set_insertBy: "set (insertBy cmp x xs) = insert x (set xs)"
  using mset_insertBy [of cmp x xs, THEN arg_cong, of set_mset] by simp

lemma set_sortBy: "set (sortBy cmp xs) = set xs"
  using mset_sortBy [of cmp xs, THEN arg_cong, of set_mset] by simp

lemma sorted_insertBy:
  assumes "sorted_wrt (\<lambda>a b. tflops b \<le> tflops a) xs"
  shows "sorted_wrt (\<lambda>a b. tflops b \<le> tflops a) (insertBy compareTflops x xs)"
  using assms
proof (induction xs)
  case Nil
  then show ?case by simp
next
  case (Cons y ys)
  show ?case
  proof (cases "compareTflops x y \<le> 0")
    case True
    then have "tflops y \<le> tflops x" by (simp add: compareTflops_def)
    with Cons.prems show ?thesis using True by auto
  next
    case False
    then have "tflops x \<le> tflops y" by (simp add: compareTflops_def)
    with Cons show ?thesis using False by (auto simp: set_insertBy)
  qed
qed

lemma sorted_sortBy: "sorted_wrt (\<lambda>a b. tflops b \<le> tflops a) (sortBy compareTflops xs)"
  unfolding sortBy_def by (induction xs) (simp_all add: sorted_insertBy)

section \<open>Grouping by series\<close>

lemma keys_pushGpu: "map fst (pushGpu grouped s gpu) = map fst grouped"
  unfolding pushGpu_def by (induction grouped) (auto split: prod.splits)

lemma pushGpu_absent: "s \<notin> fst ` set grouped \<Longrightarrow> pushGpu grouped s gpu = grouped"
  unfolding pushGpu_def by (induction grouped) (auto split: prod.splits)

lemma mset_pushGpu:
  assumes "distinct (map fst grouped)" and "s \<in> fst ` set grouped"
  shows "mset (concat (map snd (pushGpu grouped s gpu))) =
           add_mset gpu (mset (concat (map snd grouped)))"
  using assms
proof (induction grouped)
  case Nil
  then show ?case by simp
next
  case (Cons kv rest)
  obtain k v where kv: "kv = (k, v)" by (cases kv)
  show ?case
  proof (cases "k = s")
    case True
    with Cons.prems kv have "s \<notin> fst ` set rest" by auto
    then have "pushGpu rest s gpu = rest" by (rule pushGpu_absent)
    then have "pushGpu (kv # rest) s gpu = (k, v @ [gpu]) # rest"
      using True kv by (simp add: pushGpu_def)
    then show ?thesis using kv by simp
  next
    case False
    with Cons.prems kv have "distinct (map fst rest)" and "s \<in> fst ` set rest" by auto
    then have "mset (concat (map snd (pushGpu rest s gpu))) =
                 add_mset gpu (mset (concat (map snd rest)))"
      by (rule Cons.IH)
    moreover have "pushGpu (kv # rest) s gpu = (k, v) # pushGpu rest s gpu"
      using False kv by (simp add: pushGpu_def)
    ultimately show ?thesis using kv by simp
  qed
qed

lemma keys_ensureSeries:
  "map fst (ensureSeries grouped s) =
     (if s \<in> fst ` set grouped then map fst grouped else map fst grouped @ [s])"
  by (auto simp: ensureSeries_def map_of_eq_None_iff)

lemma concat_ensureSeries:
  "concat (map snd (ensureSeries grouped s)) = concat (map snd grouped)"
  by (simp add: ensureSeries_def)

lemma members_ensureSeries:
  assumes "\<forall>(k, v)\<in>set grouped. \<forall>g\<in>set v. series g = k"
  shows "\<forall>(k, v)\<in>set (ensureSeries grouped s). \<forall>g\<in>set v. series g = k"
  using assms by (auto simp: ensureSeries_def)

lemma members_pushGpu:
  assumes "\<forall>(k, v)\<in>set grouped. \<forall>g\<in>set v. series g = k"
  shows "\<forall>(k, v)\<in>set (pushGpu grouped (series gpu) gpu). \<forall>g\<in>set v. series g = k"
  using assms unfolding pushGpu_def by (fastforce split: if_splits)

lemma wellGrouped_groupStep:
  assumes "wellGrouped grouped"
  shows "wellGrouped (groupStep grouped gpu) \<and>
         mset (concat (map snd (groupStep grouped gpu))) =
           add_mset gpu (mset (concat (map snd grouped)))"
proof -
  let ?e = "ensureSeries grouped (series gpu)"
  have d: "distinct (map fst ?e)"
    using assms by (auto simp: wellGrouped_def keys_ensureSeries)
  have k: "series gpu \<in> fst ` set ?e"
    using keys_ensureSeries [of grouped "series gpu", THEN arg_cong, of set]
    by (auto split: if_splits)
  have m: "\<forall>(k, v)\<in>set ?e. \<forall>g\<in>set v. series g = k"
    using assms by (intro members_ensureSeries) (simp add: wellGrouped_def)
  have "mset (concat (map snd (pushGpu ?e (series gpu) gpu))) =
          add_mset gpu (mset (concat (map snd ?e)))"
    using d k by (rule mset_pushGpu)
  then show ?thesis
    using d members_pushGpu [OF m, of gpu]
    by (simp add: wellGrouped_def groupStep_def keys_pushGpu concat_ensureSeries)
qed

lemma wellGrouped_foldl:
  assumes "wellGrouped grouped"
  shows "wellGrouped (foldl groupStep grouped gpus) \<and>
         mset (concat (map snd (foldl groupStep grouped gpus))) =
           mset (concat (map snd grouped)) + mset gpus"
  using assms
proof (induction gpus arbitrary: grouped)
  case Nil
  then show ?case by simp
next
  case (Cons gpu gpus)
  from wellGrouped_groupStep [OF Cons.prems, of gpu] Cons.IH [of "groupStep grouped gpu"]
  show ?case by simp
qed

lemma sorted_groups:
  "map fst (map (\<lambda>(s, gpus). (s, sortBy compareTflops gpus)) grouped) = map fst grouped"
  "mset (concat (map snd (map (\<lambda>(s, gpus). (s, sortBy compareTflops gpus)) grouped))) =
     mset (concat (map snd grouped))"
  by (induction grouped) (auto simp: mset_sortBy)

lemma nvidiaGpus_names_distinct: "distinct (map name nvidiaGpus)"
  by code_simp

lemma getGpusBySeries_first: "take 1 getGpusBySeries = [(''Hopper'',
    [\<lparr>name = ''H100 NVL'', series = ''Hopper'', architecture = ''Hopper'', tflops = 1000,
       memory = Some ''188GB'', releaseYear = Some 2023\<rparr>,
     \<lparr>name = ''H100 PCIe'', series = ''Hopper'', architecture = ''Hopper'', tflops = 67,
       memory = Some ''80GB'', releaseYear = Some 2022\<rparr>,
     \<lparr>name = ''H100 SXM'', series = ''Hopper'', architecture = ''Hopper'', tflops = 67,
       memory = Some ''80GB'', releaseYear = Some 2022\<rparr>])]"
  by code_simp

lemma nvidiaGpus_tflops_positive: "\<forall>g\<in>set nvidiaGpus. 0 < tflops g"
  by code_simp

lemma precisionTypes_multipliers: "\<forall>p\<in>set precisionTypes. \<exists>k. multiplier p = Fin k \<and> 0 < k"
proof -
  have "\<exists>k. Fin (1 / 2) = Fin k \<and> 0 < k"
    by (rule exI [of _ "1 / 2"]) simp
  then show ?thesis
    by (simp add: precisionTypes_def)
qed

lemma precisionTypes_values_distinct: "distinct (map value' precisionTypes)"
  by (simp add: precisionTypes_def)

section \<open>Properties of the FLOPs count\<close>




text \<open>
  Claim C2, as stated: every pair of shapes with a dimension below 1 is rejected. The
  function has no check on the size of a dimension; a \<open>0 \<times> 1\<close> shape times a \<open>1 \<times> 1\<close>
  shape passes the only test there is and yields a result of zero operations.
\<close>

theorem calculateFlops_zero_rows_counterexample:
  "calculateFlops \<lparr>rows = Fin 0, cols = Fin 1\<rparr> \<lparr>rows = Fin 1, cols = Fin 1\<rparr> =
     Some \<lparr>totalFlops = Fin 0, multiplications = Fin 0, additions = Fin 0,
           outputDimensions = \<lparr>rows = Fin 0, cols = Fin 1\<rparr>\<rparr>"
  by (simp add: calculateFlops_def Let_def numMul_zero_left numMul_zero_right numSub_Fin_one
      numAdd_def signedZero_def)

text \<open>
  Claim C2, amended: for a pair of shapes with a dimension below 1, the function returns
  \<^verbatim>\<open>null\<close> exactly when the inner dimensions differ (\<^verbatim>\<open>a.cols !== b.rows\<close>); when they
  agree it returns a result of output shape \<open>a.rows \<times> b.cols\<close> whose counts come from the
  same three formulas as for any other shape, evaluated in binary64.
\<close>

theorem calculateFlops_degenerate:
  assumes "numLt (rows a) (Fin 1) \<or> numLt (cols a) (Fin 1) \<or>
           numLt (rows b) (Fin 1) \<or> numLt (cols b) (Fin 1)"
  shows "(calculateFlops a b = None) = numNe (cols a) (rows b) \<and>
         (\<not> numNe (cols a) (rows b) \<longrightarrow>
          calculateFlops a b =
            Some \<lparr>totalFlops =
                    numAdd (numMul (numMul (rows a) (cols b)) (cols a))
                           (numMul (numMul (rows a) (cols b)) (numSub (cols a) (Fin 1))),
                  multiplications = numMul (numMul (rows a) (cols b)) (cols a),
                  additions = numMul (numMul (rows a) (cols b)) (numSub (cols a) (Fin 1)),
                  outputDimensions = \<lparr>rows = rows a, cols = cols b\<rparr>\<rparr>)"
  by (simp add: calculateFlops_def Let_def)

theorem calculateFlops_degenerate_witness:
  "(numLt (rows \<lparr>rows = Fin 0, cols = Fin 1\<rparr>) (Fin 1) \<or> numLt (cols \<lparr>rows = Fin 0, cols = Fin 1\<rparr>) (Fin 1)
      \<or> numLt (rows \<lparr>rows = Fin 1, cols = Fin 1\<rparr>) (Fin 1)
      \<or> numLt (cols \<lparr>rows = Fin 1, cols = Fin 1\<rparr>) (Fin 1)) \<and>
   \<not> numNe (cols \<lparr>rows = Fin 0, cols = Fin 1\<rparr>) (rows \<lparr>rows = Fin 1, cols = Fin 1\<rparr>) \<and>
   calculateFlops \<lparr>rows = Fin 0, cols = Fin 1\<rparr> \<lparr>rows = Fin 1, cols = Fin 1\<rparr> \<noteq> None \<and>
   numLt (rows \<lparr>rows = Fin (- 2), cols = Fin 3\<rparr>) (Fin 1) \<and>
   numNe (cols \<lparr>rows = Fin (- 2), cols = Fin 3\<rparr>) (rows \<lparr>rows = Fin 5, cols = Fin 2\<rparr>) \<and>
   calculateFlops \<lparr>rows = Fin (- 2), cols = Fin 3\<rparr> \<lparr>rows = Fin 5, cols = Fin 2\<rparr> = None"
  using calculateFlops_degenerate [of "\<lparr>rows = Fin 0, cols = Fin 1\<rparr>" "\<lparr>rows = Fin 1, cols = Fin 1\<rparr>"]
    calculateFlops_degenerate [of "\<lparr>rows = Fin (- 2), cols = Fin 3\<rparr>" "\<lparr>rows = Fin 5, cols = Fin 2\<rparr>"]
  by simp

text \<open>
  Claim C5, as stated: when the inner dimensions differ the function fails with an error
  that carries both input shapes. The function returns the bare \<^verbatim>\<open>null\<close>: two
  different mismatched pairs of shapes give the same value, so the failure identifies
  neither shape.
\<close>

theorem calculateFlops_mismatch_counterexample:
  "calculateFlops \<lparr>rows = Fin 2, cols = Fin 3\<rparr> \<lparr>rows = Fin 5, cols = Fin 2\<rparr> = None \<and>
   calculateFlops \<lparr>rows = Fin 7, cols = Fin 1\<rparr> \<lparr>rows = Fin 4, cols = Fin 9\<rparr> = None"
  by (simp add: calculateFlops_def)

text \<open>
  Claim C5, amended: for all pairs of shapes whose inner dimensions differ
  (\<^verbatim>\<open>a.cols !== b.rows\<close>, which on integers is the inequality of the integers,
  \<open>numNe_Fin\<close>), the function returns no result: its value is \<^verbatim>\<open>null\<close>, whatever the
  shapes are.
\<close>

theorem calculateFlops_mismatch:
  assumes "numNe (cols a) (rows b)"
  shows "calculateFlops a b = None"
  using assms by (simp add: calculateFlops_def)

theorem calculateFlops_mismatch_witness:
  "numNe (cols \<lparr>rows = Fin 2, cols = Fin 3\<rparr>) (rows \<lparr>rows = Fin 5, cols = Fin 2\<rparr>) \<and>
   calculateFlops \<lparr>rows = Fin 2, cols = Fin 3\<rparr> \<lparr>rows = Fin 5, cols = Fin 2\<rparr> = None"
  using calculateFlops_mismatch [of "\<lparr>rows = Fin 2, cols = Fin 3\<rparr>" "\<lparr>rows = Fin 5, cols = Fin 2\<rparr>"]
  by simp




section \<open>Properties of the execution time estimate\<close>

text \<open>
  Claim C3, as stated: with \<open>totalFlops = 0\<close>, every throughput and precision give
  \<open>seconds = 0\<close> and the string \<^verbatim>\<open>0.000000 s\<close>. With the first catalog throughput the
  string is \<^verbatim>\<open>0.000 ns\<close>: zero passes none of the three \<^verbatim>\<open>>= 1\<close> tests, so the
  nanosecond branch prints it. With a throughput of zero the seconds are \<^verbatim>\<open>NaN\<close>.
\<close>

theorem zero_flops_formatted_counterexample:
  "formatted (calculateExecutionTime (Fin 0) (Fin 67) (precisionTypes ! 0)) = ''0.000 ns'' \<and>
   seconds (calculateExecutionTime (Fin 0) (Fin 0) (precisionTypes ! 0)) = NaN"
proof
  show "formatted (calculateExecutionTime (Fin 0) (Fin 67) (precisionTypes ! 0)) = ''0.000 ns''"
    unfolding zero_record by simp
  have "numMul (numMul (Fin 0) (Fin 1)) (Fin (10 ^ 12)) = Fin 0"
    by (simp add: numMul_zero_left)
  then show "seconds (calculateExecutionTime (Fin 0) (Fin 0) (precisionTypes ! 0)) = NaN"
    unfolding seconds_eq fp32_multiplier by (simp add: numDiv_zero_zero)
qed

text \<open>
  Claim C3, amended: with \<open>totalFlops = 0\<close> and an adjusted throughput that is neither
  zero nor \<^verbatim>\<open>NaN\<close>, the seconds are zero and the string is \<^verbatim>\<open>0.000 ns\<close>; with an
  adjusted throughput of zero the seconds are \<^verbatim>\<open>NaN\<close> and the string is
  \<^verbatim>\<open>NaN ns\<close>. Nothing is raised in either case.
\<close>

theorem zero_flops_estimate:
  assumes "getAdjustedTflops gpuTflops precision = a" and "a \<noteq> NaN"
  shows "(\<not> isZero a \<longrightarrow>
            isZero (seconds (calculateExecutionTime (Fin 0) gpuTflops precision)) \<and>
            formatted (calculateExecutionTime (Fin 0) gpuTflops precision) = ''0.000 ns'') \<and>
         (isZero a \<longrightarrow>
            seconds (calculateExecutionTime (Fin 0) gpuTflops precision) = NaN \<and>
            formatted (calculateExecutionTime (Fin 0) gpuTflops precision) = ''NaN ns'')"
proof -
  let ?s = "numDiv (Fin 0) (numMul a (Fin (10 ^ 12)))"
  have nonzero: "isZero (seconds (calculateExecutionTime (Fin 0) gpuTflops precision)) \<and>
            formatted (calculateExecutionTime (Fin 0) gpuTflops precision) = ''0.000 ns''"
    if nz: "\<not> isZero a"
  proof -
    have "numMul gpuTflops (multiplier precision) = a"
      using assms(1) by (simp add: getAdjustedTflops_def)
    from numMul_scale_up [OF this assms(2) nz, of "10 ^ 12"]
    have "numMul a (Fin (10 ^ 12)) \<noteq> NaN \<and> \<not> isZero (numMul a (Fin (10 ^ 12)))"
      by simp
    then have s: "isZero ?s" by (simp add: numDiv_zero)
    then have ms: "isZero (numMul ?s (Fin 1000))" by (simp add: numMul_zero_pos)
    then have us: "isZero (numMul (numMul ?s (Fin 1000)) (Fin 1000))"
      by (simp add: numMul_zero_pos)
    then have ns: "isZero (numMul (numMul (numMul ?s (Fin 1000)) (Fin 1000)) (Fin 1000))"
      by (simp add: numMul_zero_pos)
    show ?thesis
      using s ms us ns
      by (simp add: calculateExecutionTime_def Let_def assms(1) isZero_not_ge_one toFixed_zero)
  qed
  have zero: "seconds (calculateExecutionTime (Fin 0) gpuTflops precision) = NaN \<and>
            formatted (calculateExecutionTime (Fin 0) gpuTflops precision) = ''NaN ns''"
    if z: "isZero a"
  proof -
    have "isZero (numMul a (Fin (10 ^ 12)))" using z by (simp add: numMul_zero_pos)
    then have s: "?s = NaN" by (rule numDiv_zero_zero)
    show ?thesis
      using s by (simp add: calculateExecutionTime_def Let_def assms(1) numMul_NaN_left)
  qed
  from nonzero zero show ?thesis by blast
qed

theorem zero_flops_estimate_witness:
  "getAdjustedTflops (Fin 67) (precisionTypes ! 0) = Fin 67 \<and> Fin 67 \<noteq> NaN \<and> \<not> isZero (Fin 67) \<and>
   formatted (calculateExecutionTime (Fin 0) (Fin 67) (precisionTypes ! 0)) = ''0.000 ns'' \<and>
   getAdjustedTflops (Fin 0) (precisionTypes ! 0) = Fin 0 \<and> isZero (Fin 0) \<and>
   formatted (calculateExecutionTime (Fin 0) (Fin 0) (precisionTypes ! 0)) = ''NaN ns''"
  using zero_flops_estimate [of "Fin 67" "precisionTypes ! 0" "Fin 67"]
    zero_flops_estimate [of "Fin 0" "precisionTypes ! 0" "Fin 0"]
  by (simp add: getAdjustedTflops_def fp32_multiplier numMul_Fin round64_numeral numMul_zero_left)

text \<open>
  Claim C6. For every result, the string is chosen by the first test that holds, in
  this order: seconds at least 1, printed with 6 decimals and the unit \<^verbatim>\<open>s\<close>;
  milliseconds at least 1, with 6 decimals and \<^verbatim>\<open>ms\<close>; microseconds at least 1, with 6
  decimals and the letter mu followed by \<^verbatim>\<open>s\<close>; otherwise the nanoseconds with 3
  decimals and \<^verbatim>\<open>ns\<close>. Printing with \<open>d\<close> decimals is \<^verbatim>\<open>toFixed(d)\<close>, which puts
  exactly \<open>d\<close> digits after the point on a magnitude below \<open>10^21\<close>
  (\<open>toFixedFinite_point\<close>).
\<close>

theorem formatted_unit_selection:
  "formatted (calculateExecutionTime tf g p) =
     (if numGe (seconds (calculateExecutionTime tf g p)) (Fin 1)
        then toFixed 6 (seconds (calculateExecutionTime tf g p)) @ '' s''
      else if numGe (milliseconds (calculateExecutionTime tf g p)) (Fin 1)
        then toFixed 6 (milliseconds (calculateExecutionTime tf g p)) @ '' ms''
      else if numGe (microseconds (calculateExecutionTime tf g p)) (Fin 1)
        then toFixed 6 (microseconds (calculateExecutionTime tf g p)) @ '' '' @ [CHR 0xCE, CHR 0xBC] @ ''s''
      else toFixed 3 (nanoseconds (calculateExecutionTime tf g p)) @ '' ns'')"
  by (simp add: calculateExecutionTime_def Let_def)

theorem formatted_unit_selection_witness:
  "formatted (calculateExecutionTime (Fin (2 * 10 ^ 12)) (Fin 1) (precisionTypes ! 0)) = ''2.000000 s'' \<and>
   formatted (calculateExecutionTime (Fin 105) (Fin 19.5) (precisionTypes ! 0)) = ''0.005 ns''"
proof
  show "formatted (calculateExecutionTime (Fin (2 * 10 ^ 12)) (Fin 1) (precisionTypes ! 0)) = ''2.000000 s''"
    using formatted_unit_selection [of "Fin (2 * 10 ^ 12)" "Fin 1" "precisionTypes ! 0"]
      two_seconds_record
    by simp
  show "formatted (calculateExecutionTime (Fin 105) (Fin 19.5) (precisionTypes ! 0)) = ''0.005 ns''"
    using formatted_unit_selection [of "Fin 105" "Fin 19.5" "precisionTypes ! 0"]
    unfolding scenario_record by simp
qed

text \<open>
  Claim C4, as stated: a throughput of zero or less makes the estimate fail with an error
  instead of producing an infinite time. With a throughput of zero and 105 operations the
  function returns an estimate of infinitely many seconds, printed \<^verbatim>\<open>Infinity s\<close>.
\<close>

theorem zero_throughput_counterexample:
  "seconds (calculateExecutionTime (Fin 105) (Fin 0) (precisionTypes ! 0)) = PosInf \<and>
   formatted (calculateExecutionTime (Fin 105) (Fin 0) (precisionTypes ! 0)) = ''Infinity s''"
proof -
  have adj: "getAdjustedTflops (Fin 0) (precisionTypes ! 0) = Fin 0"
    unfolding getAdjustedTflops_def fp32_multiplier by (simp add: numMul_zero_left)
  have den: "numMul (Fin 0) (Fin (10 ^ 12)) = Fin 0"
    by (simp add: numMul_zero_left)
  have s: "numDiv (Fin 105) (Fin 0) = PosInf"
    by (simp add: number_ops)
  have ge: "numGe PosInf (Fin 1)" by simp
  have str: "toFixed 6 PosInf @ '' s'' = ''Infinity s''" by simp
  show ?thesis
    unfolding calculateExecutionTime_def Let_def adj den s
    by (simp only: ge str if_True ExecutionTime.select_convs simp_thms)
qed

text \<open>
  Claim C4, amended: the estimate has no check on the throughput and always returns a
  record. With a throughput that is a zero, for every operation count and precision the
  seconds are an infinity or \<^verbatim>\<open>NaN\<close>. With a throughput below zero, \<^verbatim>\<open>-Infinity\<close>
  included, a positive finite operation count and a positive finite multiplier, the
  seconds carry the minus sign and are not \<^verbatim>\<open>NaN\<close> (a negative number, the negative zero
  or \<^verbatim>\<open>-Infinity\<close>), and the string is the nanoseconds printed with 3 decimals.
\<close>

theorem nonpositive_throughput_estimate:
  "(isZero gpuTflops \<longrightarrow>
      seconds (calculateExecutionTime tf gpuTflops precision) \<in> {PosInf, NegInf, NaN}) \<and>
   (numLt gpuTflops (Fin 0) \<and> multiplier precision = Fin k \<and> 0 < k \<and> tf = Fin f \<and> 0 < f \<longrightarrow>
      seconds (calculateExecutionTime tf gpuTflops precision) \<noteq> NaN \<and>
      signBit (seconds (calculateExecutionTime tf gpuTflops precision)) \<and>
      formatted (calculateExecutionTime tf gpuTflops precision) =
        toFixed 3 (nanoseconds (calculateExecutionTime tf gpuTflops precision)) @ '' ns'')"
proof -
  have zero: "seconds (calculateExecutionTime tf gpuTflops precision) \<in> {PosInf, NegInf, NaN}"
    if z: "isZero gpuTflops"
  proof -
    from numMul_zero_any [OF z, of "multiplier precision"]
    have "numMul (numMul gpuTflops (multiplier precision)) (Fin (10 ^ 12)) = NaN
          \<or> isZero (numMul (numMul gpuTflops (multiplier precision)) (Fin (10 ^ 12)))"
      by (auto simp: numMul_NaN_left numMul_zero_pos)
    then show ?thesis
      unfolding seconds_eq using numDiv_by_zero numDiv_by_NaN by fastforce
  qed
  have negative: "seconds (calculateExecutionTime tf gpuTflops precision) \<noteq> NaN \<and>
      signBit (seconds (calculateExecutionTime tf gpuTflops precision)) \<and>
      formatted (calculateExecutionTime tf gpuTflops precision) =
        toFixed 3 (nanoseconds (calculateExecutionTime tf gpuTflops precision)) @ '' ns''"
    if h: "numLt gpuTflops (Fin 0) \<and> multiplier precision = Fin k \<and> 0 < k \<and> tf = Fin f \<and> 0 < f"
  proof -
    define adj where "adj = numMul gpuTflops (Fin k)"
    define den where "den = numMul adj (Fin (10 ^ 12))"
    define s where "s = numDiv (Fin f) den"
    define ms where "ms = numMul s (Fin 1000)"
    define us where "us = numMul ms (Fin 1000)"
    define ns where "ns = numMul us (Fin 1000)"
    have g: "gpuTflops \<noteq> NaN" "signBit gpuTflops" "\<not> isZero gpuTflops"
      using h by (cases gpuTflops; simp)+
    have k: "Fin k \<noteq> NaN" "\<not> isZero (Fin k)" "\<not> isInf (Fin k)" "\<not> signBit (Fin k)"
      using h by simp_all
    have adj: "adj \<noteq> NaN \<and> signBit adj"
      unfolding adj_def using numMul_sign [of gpuTflops "Fin k"] g k by simp
    have c: "Fin c \<noteq> NaN" "\<not> isZero (Fin c)" "\<not> isInf (Fin c)" "\<not> signBit (Fin c)"
      if "0 < c" for c :: real
      using that by simp_all
    have scale: "numMul z (Fin c) \<noteq> NaN \<and> signBit (numMul z (Fin c))"
      if "z \<noteq> NaN \<and> signBit z" and "0 < c" for z c
      using numMul_sign [of z "Fin c"] that c [OF that(2)] by simp
    have den: "den \<noteq> NaN \<and> signBit den"
      unfolding den_def using adj by (intro scale) simp_all
    have f: "Fin f \<noteq> NaN" "\<not> isZero (Fin f)" "\<not> isInf (Fin f)" "\<not> signBit (Fin f)"
      using h by simp_all
    have s: "s \<noteq> NaN \<and> signBit s"
      unfolding s_def using numDiv_sign [of "Fin f" den] den f by simp
    have ms: "ms \<noteq> NaN \<and> signBit ms" unfolding ms_def using s by (intro scale) simp_all
    have us: "us \<noteq> NaN \<and> signBit us" unfolding us_def using ms by (intro scale) simp_all
    have r: "calculateExecutionTime tf gpuTflops precision =
               \<lparr>seconds = s, milliseconds = ms, microseconds = us, nanoseconds = ns,
                formatted = toFixed 3 ns @ '' ns''\<rparr>"
      using h s ms us
      unfolding calculateExecutionTime_def Let_def getAdjustedTflops_def
        adj_def [symmetric] den_def [symmetric] s_def [symmetric] ms_def [symmetric]
        us_def [symmetric] ns_def [symmetric]
      by (simp add: signBit_not_ge_one adj_def den_def s_def ms_def us_def ns_def)
    show ?thesis unfolding r using s by simp
  qed
  from zero negative show ?thesis by blast
qed

theorem nonpositive_throughput_estimate_witness:
  "isZero (Fin 0) \<and>
   seconds (calculateExecutionTime (Fin 105) (Fin 0) (precisionTypes ! 0)) \<in> {PosInf, NegInf, NaN} \<and>
   numLt (Fin (- 1)) (Fin 0) \<and> multiplier (precisionTypes ! 0) = Fin 1 \<and> (0 :: real) < 1 \<and>
   (0 :: real) < 105 \<and>
   signBit (seconds (calculateExecutionTime (Fin 105) (Fin (- 1)) (precisionTypes ! 0))) \<and>
   numLt NegInf (Fin 0) \<and>
   formatted (calculateExecutionTime (Fin 105) NegInf (precisionTypes ! 0)) =
     toFixed 3 (nanoseconds (calculateExecutionTime (Fin 105) NegInf (precisionTypes ! 0))) @ '' ns''"
  using nonpositive_throughput_estimate [where gpuTflops = "Fin 0" and tf = "Fin 105"
      and precision = "precisionTypes ! 0"]
    nonpositive_throughput_estimate [where gpuTflops = "Fin (- 1)" and precision = "precisionTypes ! 0"
        and k = 1 and tf = "Fin 105" and f = 105]
    nonpositive_throughput_estimate [where gpuTflops = NegInf and precision = "precisionTypes ! 0"
        and k = 1 and tf = "Fin 105" and f = 105]
  by (simp add: fp32_multiplier)

text \<open>
  Claim C7, as stated: for every throughput and operation count the seconds under a
  multiplier \<open>k\<close> are exactly \<open>1 / k\<close> times the seconds under the multiplier 1. Every
  operation rounds, so for \<open>k = 3\<close> (105 operations at 19.5 TFLOPS) the two sides differ by
  one unit in the last place; and for the table row of multiplier 8, with a throughput of
  \<open>2^982\<close> and \<open>2^1000\<close> operations, the adjusted denominator overflows to infinity and the
  seconds are 0, while an eighth of the baseline seconds is not.
\<close>

theorem precision_scaling_counterexample:
  "seconds (calculateExecutionTime (Fin 105) (Fin 19.5) ((precisionTypes ! 0)\<lparr>multiplier := Fin 3\<rparr>)) =
     Fin (8887774641023243 / 2 ^ 92) \<and>
   numMul (numDiv (Fin 1) (Fin 3))
     (seconds (calculateExecutionTime (Fin 105) (Fin 19.5) (precisionTypes ! 0))) =
     Fin (8887774641023242 / 2 ^ 92) \<and>
   seconds (calculateExecutionTime (Fin (2 ^ 1000)) (Fin (2 ^ 982)) (precisionTypes ! 4)) = Fin 0 \<and>
   numMul (numDiv (Fin 1) (Fin 8))
     (seconds (calculateExecutionTime (Fin (2 ^ 1000)) (Fin (2 ^ 982)) (precisionTypes ! 0))) =
     Fin (4951760157141521 / 2 ^ 77)"
proof (intro conjI)
  have m3: "multiplier ((precisionTypes ! 0)\<lparr>multiplier := Fin 3\<rparr>) = Fin 3"
    by simp
  have a3: "numMul (Fin (195 / 10)) (Fin 3) = Fin (117 / 2)"
    using round64_58_5 by (simp add: numMul_Fin)
  have d3: "numMul (Fin (117 / 2)) (Fin (10 ^ 12)) = Fin 58500000000000"
    by (simp add: numMul_Fin round64_numeral)
  have s3: "numDiv (Fin 105) (Fin 58500000000000) = Fin (8887774641023243 / 2 ^ 92)"
    using third_seconds by (simp add: numDiv_Fin)
  show "seconds (calculateExecutionTime (Fin 105) (Fin 19.5) ((precisionTypes ! 0)\<lparr>multiplier := Fin 3\<rparr>)) =
     Fin (8887774641023243 / 2 ^ 92)"
    unfolding seconds_eq by (simp only: m3 a3 d3 s3)
  have inv: "numDiv (Fin 1) (Fin 3) = Fin (6004799503160661 / 2 ^ 54)"
    using one_third by (simp add: numDiv_Fin)
  have prod: "numMul (Fin (6004799503160661 / 2 ^ 54)) (Fin (6665830980767432 / 2 ^ 90)) =
              Fin (8887774641023242 / 2 ^ 92)"
    using third_of_baseline by (simp add: numMul_Fin)
  show "numMul (numDiv (Fin 1) (Fin 3))
     (seconds (calculateExecutionTime (Fin 105) (Fin 19.5) (precisionTypes ! 0))) =
     Fin (8887774641023242 / 2 ^ 92)"
    unfolding scenario_record by (simp only: ExecutionTime.select_convs inv prod)
  have a8: "numMul (Fin (2 ^ 982)) (Fin 8) = Fin (2 ^ 985)"
    using big_adjusted by (simp add: numMul_Fin)
  have d8: "numMul (Fin (2 ^ 985)) (Fin (10 ^ 12)) = PosInf"
    using big_overflow by (simp add: numMul_Fin)
  have s8: "numDiv (Fin (2 ^ 1000)) PosInf = Fin 0"
    by (simp add: number_ops)
  show "seconds (calculateExecutionTime (Fin (2 ^ 1000)) (Fin (2 ^ 982)) (precisionTypes ! 4)) = Fin 0"
    unfolding seconds_eq int4_multiplier by (simp only: a8 d8 s8)
  have a1: "numMul (Fin (2 ^ 982)) (Fin 1) = Fin (2 ^ 982)"
    using big_baseline_adjusted by (simp add: numMul_Fin)
  have d1: "numMul (Fin (2 ^ 982)) (Fin (10 ^ 12)) = Fin (2 ^ 982 * 10 ^ 12)"
    using big_baseline_denominator by (simp add: numMul_Fin)
  have s1: "numDiv (Fin (2 ^ 1000)) (Fin (2 ^ 982 * 10 ^ 12)) = Fin (4951760157141521 / 2 ^ 74)"
    using big_baseline_seconds by (simp add: numDiv_Fin)
  have i8: "numDiv (Fin 1) (Fin 8) = Fin (1 / 8)"
    using one_eighth by (simp add: numDiv_Fin)
  have p8: "numMul (Fin (1 / 8)) (Fin (4951760157141521 / 2 ^ 74)) = Fin (4951760157141521 / 2 ^ 77)"
    using eighth_of_baseline by (simp add: numMul_Fin)
  show "numMul (numDiv (Fin 1) (Fin 8))
     (seconds (calculateExecutionTime (Fin (2 ^ 1000)) (Fin (2 ^ 982)) (precisionTypes ! 0))) =
     Fin (4951760157141521 / 2 ^ 77)"
    unfolding seconds_eq fp32_multiplier by (simp only: a1 d1 s1 i8 p8)
qed

text \<open>
  Claim C7, amended: for a multiplier that is a power of two \<open>2^j\<close> with \<open>|j| \<le> 100\<close> (as
  every row of the precision table is), a binary64 throughput \<open>t\<close> with
  \<open>2^-300 \<le> t \<le> 2^300\<close> and an operation count that is zero or of magnitude between
  \<open>2^-300\<close> and \<open>2^300\<close>, the seconds are exactly \<open>1 / 2^j\<close> times the seconds under the
  multiplier 1, both sides computed with the operators of the numbers.
\<close>

theorem precision_scaling:
  assumes "multiplier p = Fin (2 powi j)" and "- 100 \<le> j" and "j \<le> 100"
    and "multiplier base = Fin 1"
    and "round64 t = Fin t" and "2 powi (- 300) \<le> t" and "t \<le> 2 powi 300"
    and "f = 0 \<or> 2 powi (- 300) \<le> \<bar>f\<bar> \<and> \<bar>f\<bar> \<le> 2 powi 300"
  shows "seconds (calculateExecutionTime (Fin f) (Fin t) p) =
           numMul (numDiv (Fin 1) (multiplier p))
             (seconds (calculateExecutionTime (Fin f) (Fin t) base))"
  unfolding seconds_eq assms(1,4)
  using assms(5-8,2,3) by (rule scaling_core [where A = 300 and J = 100]) simp_all

theorem precision_scaling_witness:
  "multiplier (precisionTypes ! 3) = Fin (2 powi 2) \<and> (- 100 :: int) \<le> 2 \<and> (2 :: int) \<le> 100 \<and>
   multiplier (precisionTypes ! 0) = Fin 1 \<and>
   round64 19.5 = Fin 19.5 \<and> 2 powi (- 300) \<le> (19.5 :: real) \<and> (19.5 :: real) \<le> 2 powi 300 \<and>
   2 powi (- 300) \<le> \<bar>105 :: real\<bar> \<and> \<bar>105 :: real\<bar> \<le> 2 powi 300 \<and>
   seconds (calculateExecutionTime (Fin 105) (Fin 19.5) (precisionTypes ! 3)) =
     numMul (numDiv (Fin 1) (Fin 4)) (seconds (calculateExecutionTime (Fin 105) (Fin 19.5) (precisionTypes ! 0)))"
  using precision_scaling [where p = "precisionTypes ! 3" and j = 2 and t = "19.5"
      and base = "precisionTypes ! 0" and f = 105]
    round64_19_5
  by (simp add: fp32_multiplier int8_multiplier)

section \<open>Properties of the catalogs\<close>

text \<open>
  Claim C8. The grouping returned by \<^verbatim>\<open>getGpusBySeries\<close> has one entry per series label;
  every device of an entry carries that entry's label and each entry is in descending
  order of \<open>tflops\<close>; the devices of all entries together are exactly the catalog, each
  device once. The result is a constant: it depends on nothing but the catalog, so every
  call gives the same grouping.
\<close>

theorem getGpusBySeries_grouped_sorted:
  "distinct (map fst getGpusBySeries) \<and>
   (\<forall>(s, gpus)\<in>set getGpusBySeries.
      (\<forall>g\<in>set gpus. series g = s) \<and> sorted_wrt (\<lambda>a b. tflops b \<le> tflops a) gpus) \<and>
   mset (concat (map snd getGpusBySeries)) = mset nvidiaGpus \<and>
   distinct (concat (map snd getGpusBySeries))"
proof -
  let ?g = "foldl groupStep [] nvidiaGpus"
  have "wellGrouped []" by (simp add: wellGrouped_def)
  from wellGrouped_foldl [OF this, of nvidiaGpus]
  have wg: "wellGrouped ?g" and ms: "mset (concat (map snd ?g)) = mset nvidiaGpus"
    by simp_all
  have keys: "distinct (map fst getGpusBySeries)"
    unfolding getGpusBySeries_def sorted_groups using wg by (simp add: wellGrouped_def)
  have groups: "\<forall>(s, gpus)\<in>set getGpusBySeries.
      (\<forall>g\<in>set gpus. series g = s) \<and> sorted_wrt (\<lambda>a b. tflops b \<le> tflops a) gpus"
    using wg unfolding getGpusBySeries_def wellGrouped_def
    by (auto simp: set_sortBy sorted_sortBy)
  have all: "mset (concat (map snd getGpusBySeries)) = mset nvidiaGpus"
    unfolding getGpusBySeries_def sorted_groups using ms .
  have "distinct nvidiaGpus"
    using nvidiaGpus_names_distinct by (rule distinct_map [THEN iffD1, THEN conjunct1])
  with all have "distinct (concat (map snd getGpusBySeries))"
    by (metis mset_eq_imp_distinct_iff)
  with keys groups all show ?thesis by simp
qed

theorem getGpusBySeries_grouped_sorted_witness:
  "(''Hopper'',
    [\<lparr>name = ''H100 NVL'', series = ''Hopper'', architecture = ''Hopper'', tflops = 1000,
       memory = Some ''188GB'', releaseYear = Some 2023\<rparr>,
     \<lparr>name = ''H100 PCIe'', series = ''Hopper'', architecture = ''Hopper'', tflops = 67,
       memory = Some ''80GB'', releaseYear = Some 2022\<rparr>,
     \<lparr>name = ''H100 SXM'', series = ''Hopper'', architecture = ''Hopper'', tflops = 67,
       memory = Some ''80GB'', releaseYear = Some 2022\<rparr>]) \<in> set getGpusBySeries \<and>
   sorted_wrt (\<lambda>a b. tflops b \<le> tflops a)
    [\<lparr>name = ''H100 NVL'', series = ''Hopper'', architecture = ''Hopper'', tflops = 1000,
       memory = Some ''188GB'', releaseYear = Some 2023\<rparr>,
     \<lparr>name = ''H100 PCIe'', series = ''Hopper'', architecture = ''Hopper'', tflops = 67,
       memory = Some ''80GB'', releaseYear = Some 2022\<rparr>,
     \<lparr>name = ''H100 SXM'', series = ''Hopper'', architecture = ''Hopper'', tflops = 67,
       memory = Some ''80GB'', releaseYear = Some 2022\<rparr>] \<and>
   size (mset (concat (map snd getGpusBySeries))) = 91"
proof -
  have "hd (take 1 getGpusBySeries) \<in> set (take 1 getGpusBySeries)"
    unfolding getGpusBySeries_first by simp
  then have "hd (take 1 getGpusBySeries) \<in> set getGpusBySeries"
    by (rule in_set_takeD)
  moreover have "length nvidiaGpus = 91"
    by (simp add: nvidiaGpus_def)
  ultimately show ?thesis
    using getGpusBySeries_grouped_sorted unfolding getGpusBySeries_first by auto
qed

text \<open>
  Claim C9. Every device of the catalog has a positive \<open>tflops\<close> and no two devices
  share a name; every row of the precision table has a positive multiplier and no two
  rows share a \<^verbatim>\<open>value\<close>.
\<close>

theorem catalog_invariants:
  "(\<forall>g\<in>set nvidiaGpus. 0 < tflops g) \<and> distinct (map name nvidiaGpus) \<and>
   (\<forall>p\<in>set precisionTypes. \<exists>k. multiplier p = Fin k \<and> 0 < k) \<and>
   distinct (map value' precisionTypes)"
  using nvidiaGpus_tflops_positive nvidiaGpus_names_distinct precisionTypes_multipliers
    precisionTypes_values_distinct
  by simp

theorem catalog_invariants_witness:
  "nvidiaGpus ! 3 \<in> set nvidiaGpus \<and> tflops (nvidiaGpus ! 3) = 19.5 \<and>
   0 < tflops (nvidiaGpus ! 3) \<and>
   precisionTypes ! 5 \<in> set precisionTypes \<and>
   (\<exists>k. multiplier (precisionTypes ! 5) = Fin k \<and> 0 < k)"
proof -
  have g: "nvidiaGpus ! 3 \<in> set nvidiaGpus" by (simp add: nvidiaGpus_def)
  have p: "precisionTypes ! 5 \<in> set precisionTypes" by (simp add: precisionTypes_def)
  have v: "tflops (nvidiaGpus ! 3) = 19.5" by (simp add: nvidiaGpus_def)
  from catalog_invariants g p v show ?thesis by blast
qed

end
